theory Spec2Isabelle
  imports Main "HOL-Library.Word"
begin

unbundle bit_operations_syntax

section \<open>Severity levels (log.go, lines 13-56)\<close>

text \<open>
  \<^verbatim>\<open>type Level uint8\<close> with the constants \<^verbatim>\<open>Ldebug .. Lfatal\<close> numbered by
  \<^verbatim>\<open>iota\<close>. A \<^verbatim>\<open>Level\<close> is any byte; only 0..5 have a name.
\<close>

type_synonym Level = "8 word"

definition Ldebug :: Level where "Ldebug = 0"
definition Linfo :: Level where "Linfo = 1"
definition Lwarn :: Level where "Lwarn = 2"
definition Lerror :: Level where "Lerror = 3"
definition Lpanic :: Level where "Lpanic = 4"
definition Lfatal :: Level where "Lfatal = 5"

definition levels :: "string list" where
  "levels = [''DEBUG'', ''INFO'', ''WARN'', ''ERROR'', ''PANIC'', ''FATAL'']"

text \<open>
  \<^verbatim>\<open>levels[lvl]\<close>: Go panics with a runtime error when the index is out of range,
  which is \<open>None\<close> here.
\<close>

definition levels_at :: "Level \<Rightarrow> string option" where
  "levels_at lvl = (if unat lvl < length levels then Some (levels ! unat lvl) else None)"

section \<open>Values, errors and the library functions the logger calls\<close>

text \<open>
  Error values. \<open>fmt_Errorf format operand\<close> is the value of
  \<^verbatim>\<open>fmt.Errorf(format, operand)\<close> with one string operand, kept as the call that made
  it. The others are what the \<^verbatim>\<open>os\<close> package returns: \<^verbatim>\<open>os.ErrInvalid\<close> for a nil
  file, \<^verbatim>\<open>os.ErrClosed\<close> for a file closed before, and an error reported by the
  operating system, with its text.
\<close>

datatype error = fmt_Errorf string string | ErrInvalid | ErrClosed | SysError string

text \<open>
  An \<^verbatim>\<open>interface{}\<close> operand of a logging call: a string, an error, or a value of
  any other kind.
\<close>

datatype 'a any = AString string | AError error | AOther 'a

text \<open>
  What the Go standard library does and this development leaves open, as a parameter
  of every function that needs it: the default (\<^verbatim>\<open>%v\<close>) rendering of an operand that is
  no string, the text of an error, \<^verbatim>\<open>fmt.Sprintf\<close> outside the directives modelled
  below, and \<^verbatim>\<open>strings.Map(unicode.ToLower, s)\<close>, which \<^verbatim>\<open>strings.ToLower\<close> applies to
  a string holding a byte outside ASCII.
\<close>

record 'a stdlib =
  formatV :: "'a \<Rightarrow> string"
  errorString :: "error \<Rightarrow> string"
  sprintfExt :: "string \<Rightarrow> 'a any list \<Rightarrow> string"
  mapToLower :: "string \<Rightarrow> string"

subsection \<open>strings.ToLower\<close>

definition isASCII :: "string \<Rightarrow> bool" where
  "isASCII s = list_all (\<lambda>c. (of_char c :: nat) < 128) s"

definition isUpper :: "char \<Rightarrow> bool" where
  "isUpper c = (65 \<le> (of_char c :: nat) \<and> (of_char c :: nat) \<le> 90)"

definition lowerByte :: "char \<Rightarrow> char" where
  "lowerByte c = (if isUpper c then char_of ((of_char c :: nat) + 32) else c)"

definition ToLower :: "'a stdlib \<Rightarrow> string \<Rightarrow> string" where
  "ToLower lib s =
     (if isASCII s then (if list_ex isUpper s then map lowerByte s else s)
      else mapToLower lib s)"

subsection \<open>ParseLevel\<close>

text \<open>
  Go returns the pair \<^verbatim>\<open>(Level, error)\<close>; a nil error is \<open>None\<close>. On failure the
  level is the zero value of \<^verbatim>\<open>var l Level\<close>.
\<close>

definition ParseLevel :: "'a stdlib \<Rightarrow> string \<Rightarrow> Level \<times> error option" where
  "ParseLevel lib lvl =
     (let t = ToLower lib lvl in
      if t = ''panic'' then (Lpanic, None)
      else if t = ''fatal'' then (Lfatal, None)
      else if t = ''error'' then (Lerror, None)
      else if t = ''warn'' then (Lwarn, None)
      else if t = ''info'' then (Linfo, None)
      else if t = ''debug'' then (Ldebug, None)
      else (0, Some (fmt_Errorf ''invalid log Level: %q'' lvl)))"

section \<open>The fmt package: Sprint, Sprintln, Sprintf\<close>

definition isString :: "'a any \<Rightarrow> bool" where
  "isString a = (case a of AString s \<Rightarrow> True | _ \<Rightarrow> False)"

text \<open>\<^verbatim>\<open>printArg(arg, 'v')\<close>: a string prints as itself, an error as its text.\<close>

definition printArg :: "'a stdlib \<Rightarrow> 'a any \<Rightarrow> string" where
  "printArg lib a =
     (case a of AString s \<Rightarrow> s | AError e \<Rightarrow> errorString lib e | AOther x \<Rightarrow> formatV lib x)"

text \<open>
  \<^verbatim>\<open>doPrint\<close>, the loop of \<^verbatim>\<open>fmt.Sprint\<close>: a space goes between two operands when
  neither is a string. The arguments are the loop's \<^verbatim>\<open>argNum\<close> and \<^verbatim>\<open>prevString\<close>.
\<close>

fun doPrint :: "'a stdlib \<Rightarrow> nat \<Rightarrow> bool \<Rightarrow> 'a any list \<Rightarrow> string" where
  "doPrint lib argNum prevString [] = []"
| "doPrint lib argNum prevString (arg # rest) =
     (if argNum > 0 \<and> \<not> isString arg \<and> \<not> prevString then '' '' else [])
     @ printArg lib arg @ doPrint lib (Suc argNum) (isString arg) rest"

definition Sprint :: "'a stdlib \<Rightarrow> 'a any list \<Rightarrow> string" where
  "Sprint lib a = doPrint lib 0 False a"

text \<open>
  \<^verbatim>\<open>doPrintln\<close>, the loop of \<^verbatim>\<open>fmt.Sprintln\<close>: a space goes between any two operands
  and a newline ends the text.
\<close>

fun doPrintln :: "'a stdlib \<Rightarrow> nat \<Rightarrow> 'a any list \<Rightarrow> string" where
  "doPrintln lib argNum [] = [CHR 0x0A]"
| "doPrintln lib argNum (arg # rest) =
     (if argNum > 0 then '' '' else []) @ printArg lib arg @ doPrintln lib (Suc argNum) rest"

definition Sprintln :: "'a stdlib \<Rightarrow> 'a any list \<Rightarrow> string" where
  "Sprintln lib a = doPrintln lib 0 a"

text \<open>
  \<^verbatim>\<open>fmt.Sprintf\<close> on the directives modelled here: plain text, \<^verbatim>\<open>%%\<close>, \<^verbatim>\<open>%v\<close> with
  any operand, \<^verbatim>\<open>%s\<close> with a string or an error, each directive consuming one operand
  and no operand left over. \<open>None\<close> means the call is outside this fragment (flags,
  widths, other verbs, missing or extra operands); \<open>Sprintf\<close> then takes the result
  from the library parameter.
\<close>

fun sprintfCore :: "'a stdlib \<Rightarrow> string \<Rightarrow> 'a any list \<Rightarrow> string option" where
  "sprintfCore lib [] [] = Some []"
| "sprintfCore lib [] (a # as) = None"
| "sprintfCore lib (c # cs) as =
     (if c \<noteq> CHR ''%'' then map_option ((#) c) (sprintfCore lib cs as)
      else (case cs of
              [] \<Rightarrow> None
            | verb # rest \<Rightarrow>
                if verb = CHR ''%'' then map_option ((#) CHR ''%'') (sprintfCore lib rest as)
                else (case as of
                        [] \<Rightarrow> None
                      | a # as' \<Rightarrow>
                          if verb = CHR ''v'' \<or> (verb = CHR ''s'' \<and> (case a of AOther x \<Rightarrow> False | _ \<Rightarrow> True))
                          then map_option ((@) (printArg lib a)) (sprintfCore lib rest as')
                          else None)))"

definition Sprintf :: "'a stdlib \<Rightarrow> string \<Rightarrow> 'a any list \<Rightarrow> string" where
  "Sprintf lib format a =
     (case sprintfCore lib format a of Some s \<Rightarrow> s | None \<Rightarrow> sprintfExt lib format a)"

section \<open>The world outside the logger: clock, files, writers\<close>

text \<open>
  A \<^verbatim>\<open>*os.File\<close> is a handle number; \<^verbatim>\<open>os.Stderr\<close> is handle 2. An \<^verbatim>\<open>io.Writer\<close> is
  a file or some other sink.
\<close>

datatype Writer = FileWriter nat | OtherWriter nat

definition os_Stderr :: Writer where
  "os_Stderr = FileWriter 2"

datatype oflag = O_CREATE | O_APPEND | O_RDWR

text \<open>The standard library's \<^verbatim>\<open>log.Logger\<close>: output, prefix and flags.\<close>

record StdLogger =
  out :: Writer
  prefix :: string
  flag :: int

text \<open>
  What the program does to the world, in order: the three file operations of a rotation
  and each line handed to a standard logger's \<^verbatim>\<open>Output(calldepth, s)\<close>.
\<close>

datatype event =
    SysClose nat
  | SysRename string string
  | SysOpenFile string "oflag list" nat
  | LogOutput StdLogger nat string

text \<open>
  The world: \<open>now w n\<close> is what the \<open>n\<close>-th \<^verbatim>\<open>time.Now().Format(TimeLayout)\<close> returns
  and \<open>reads\<close> counts the readings made; \<open>oserr\<close> says which file operation the
  operating system fails, given all that happened before; \<open>history\<close> is the list of
  events so far; \<open>allocated\<close> numbers the next file handle; \<open>closed\<close> holds the
  handles on which \<^verbatim>\<open>Close\<close> was called.
\<close>

record World =
  now :: "nat \<Rightarrow> string"
  reads :: nat
  oserr :: "event list \<Rightarrow> event \<Rightarrow> error option"
  history :: "event list"
  allocated :: nat
  closed :: "nat set"

definition Now :: "World \<Rightarrow> string \<times> World" where
  "Now w = (now w (reads w), w\<lparr>reads := Suc (reads w)\<rparr>)"

text \<open>
  \<^verbatim>\<open>(*os.File).Close\<close>: \<^verbatim>\<open>ErrInvalid\<close> on a nil file, \<^verbatim>\<open>ErrClosed\<close> when Close was
  called before; otherwise the file is closed, whatever the operating system reports.
\<close>

definition os_Close :: "nat option \<Rightarrow> World \<Rightarrow> error option \<times> World" where
  "os_Close f w =
     (case f of
        None \<Rightarrow> (Some ErrInvalid, w)
      | Some h \<Rightarrow>
          if h \<in> closed w then (Some ErrClosed, w)
          else (oserr w (history w) (SysClose h),
                w\<lparr>history := history w @ [SysClose h], closed := insert h (closed w)\<rparr>))"

definition os_Rename :: "string \<Rightarrow> string \<Rightarrow> World \<Rightarrow> error option \<times> World" where
  "os_Rename oldpath newpath w =
     (oserr w (history w) (SysRename oldpath newpath),
      w\<lparr>history := history w @ [SysRename oldpath newpath]\<rparr>)"

definition os_OpenFile :: "string \<Rightarrow> oflag list \<Rightarrow> nat \<Rightarrow> World \<Rightarrow> (error + nat) \<times> World" where
  "os_OpenFile name flags perm w =
     (case oserr w (history w) (SysOpenFile name flags perm) of
        Some e \<Rightarrow> (Inl e, w\<lparr>history := history w @ [SysOpenFile name flags perm]\<rparr>)
      | None \<Rightarrow>
          (Inr (allocated w),
           w\<lparr>history := history w @ [SysOpenFile name flags perm],
             allocated := Suc (allocated w)\<rparr>))"

text \<open>The flag constants of the standard \<^verbatim>\<open>log\<close> package.\<close>

definition log_Ldate :: int where "log_Ldate = 1"
definition log_Ltime :: int where "log_Ltime = 2"
definition log_Lshortfile :: int where "log_Lshortfile = 16"
definition log_LstdFlags :: int where "log_LstdFlags = log_Ldate OR log_Ltime"

definition log_New :: "Writer \<Rightarrow> string \<Rightarrow> int \<Rightarrow> StdLogger" where
  "log_New w p f = \<lparr>out = w, prefix = p, flag = f\<rparr>"

definition SetOutput :: "StdLogger \<Rightarrow> Writer \<Rightarrow> StdLogger" where
  "SetOutput lg w = lg\<lparr>out := w\<rparr>"

text \<open>
  \<^verbatim>\<open>(*log.Logger).Output(calldepth, s)\<close>: the line is handed to the logger. The
  source drops the error Output returns.
\<close>

definition Output :: "StdLogger \<Rightarrow> nat \<Rightarrow> string \<Rightarrow> World \<Rightarrow> World" where
  "Output lg calldepth s w = w\<lparr>history := history w @ [LogOutput lg calldepth s]\<rparr>"

text \<open>
  How a call ends when it does not return: \<^verbatim>\<open>os.Exit(code)\<close>, \<^verbatim>\<open>panic(text)\<close>, or a
  runtime error.
\<close>

datatype abort = Exited int | Panicked string | RuntimeError string

text \<open>
  The standard library's \<^verbatim>\<open>log.Fatal(v...)\<close>: \<^verbatim>\<open>std.Output(2, fmt.Sprint(v...))\<close> on the
  default logger \<^verbatim>\<open>New(os.Stderr, "", LstdFlags)\<close>, then \<^verbatim>\<open>os.Exit(1)\<close>.
\<close>

definition log_std :: StdLogger where
  "log_std = log_New os_Stderr '''' log_LstdFlags"

definition log_Fatal :: "'a stdlib \<Rightarrow> 'a any list \<Rightarrow> World \<Rightarrow> abort \<times> World" where
  "log_Fatal lib v w = (Exited 1, Output log_std 2 (Sprint lib v) w)"

section \<open>The Logger (log.go, lines 58-186)\<close>

text \<open>
  The struct \<^verbatim>\<open>Logger\<close>. The mutex \<^verbatim>\<open>mu\<close> has no field: calls run one after the
  other here, so \<^verbatim>\<open>Lock\<close> and \<^verbatim>\<open>Unlock\<close> do nothing. A nil \<^verbatim>\<open>fd\<close> is \<open>None\<close>.
  Files are opened with \<^verbatim>\<open>os.O_CREATE|os.O_APPEND|os.O_RDWR\<close> and permission octal
  0666, which is 438.
\<close>

record Logger =
  logger :: StdLogger
  level :: Level
  shouldRotate :: bool
  timeSuffix :: string
  fileName :: string
  fd :: "nat option"

definition Ldefault :: int where
  "Ldefault = log_Lshortfile OR log_LstdFlags"

definition New :: "Writer \<Rightarrow> string \<Rightarrow> int \<Rightarrow> Level \<Rightarrow> Logger" where
  "New w p f lv =
     \<lparr>logger = log_New w p f, level = lv, shouldRotate = False,
      timeSuffix = '''', fileName = '''', fd = None\<rparr>"

definition NewRotate ::
  "'a stdlib \<Rightarrow> string \<Rightarrow> string \<Rightarrow> int \<Rightarrow> Level \<Rightarrow> World \<Rightarrow> (abort + Logger) \<times> World" where
  "NewRotate lib name p f lv w =
     (case os_OpenFile name [O_CREATE, O_APPEND, O_RDWR] 438 w of
        (Inl err, w1) \<Rightarrow> (case log_Fatal lib [AError err] w1 of (a, w2) \<Rightarrow> (Inl a, w2))
      | (Inr h, w1) \<Rightarrow>
          (case Now w1 of
             (suffix, w2) \<Rightarrow>
               (Inr \<lparr>logger = log_New (FileWriter h) p f, level = lv, shouldRotate = True,
                     timeSuffix = suffix, fileName = name, fd = Some h\<rparr>, w2)))"

text \<open>The default logger \<^verbatim>\<open>Std\<close> as the package initialises it.\<close>

definition Std :: Logger where
  "Std = New os_Stderr '''' Ldefault Ldebug"

definition Logger_doRotate :: "Logger \<Rightarrow> World \<Rightarrow> error option \<times> Logger \<times> World" where
  "Logger_doRotate l w =
     (case Now w of
        (suffix, w1) \<Rightarrow>
          if suffix = timeSuffix l then (None, l, w1)
          else (case os_Close (fd l) w1 of
                  (Some err, w2) \<Rightarrow> (Some err, l, w2)
                | (None, w2) \<Rightarrow>
                    (let lastName = fileName l @ ''.'' @ timeSuffix l in
                     case os_Rename (fileName l) lastName w2 of
                       (Some err, w3) \<Rightarrow> (Some err, l, w3)
                     | (None, w3) \<Rightarrow>
                         (case os_OpenFile (fileName l) [O_CREATE, O_APPEND, O_RDWR] 438 w3 of
                            (Inl err, w4) \<Rightarrow> (Some err, l, w4)
                          | (Inr f, w4) \<Rightarrow>
                              (None,
                               l\<lparr>logger := SetOutput (logger l) (FileWriter f),
                                 fd := Some f,
                                 timeSuffix := suffix\<rparr>,
                               w4)))))"

definition Logger_rotate :: "Logger \<Rightarrow> World \<Rightarrow> error option \<times> Logger \<times> World" where
  "Logger_rotate l w =
     (case Now w of
        (suffix, w1) \<Rightarrow>
          if suffix \<noteq> timeSuffix l then
            (case Logger_doRotate l w1 of
               (Some err, l2, w2) \<Rightarrow> (Some err, l2, w2)
             | (None, l2, w2) \<Rightarrow> (None, l2, w2))
          else (None, l, w1))"

text \<open>
  The part the three logging functions share after the level filter: the rotation
  check when \<^verbatim>\<open>shouldRotate\<close> is set, with \<^verbatim>\<open>log.Fatal("log rotate failed.", err)\<close>
  on an error.
\<close>

definition checkRotate ::
  "'a stdlib \<Rightarrow> Logger \<Rightarrow> World \<Rightarrow> (abort + unit) \<times> Logger \<times> World" where
  "checkRotate lib l w =
     (if shouldRotate l then
        (case Logger_rotate l w of
           (Some err, l1, w1) \<Rightarrow>
             (case log_Fatal lib [AString ''log rotate failed.'', AError err] w1 of
                (a, w2) \<Rightarrow> (Inl a, l1, w2))
         | (None, l1, w1) \<Rightarrow> (Inr (), l1, w1))
      else (Inr (), l, w))"

definition Logger_log ::
  "'a stdlib \<Rightarrow> Level \<Rightarrow> 'a any list \<Rightarrow> Logger \<Rightarrow> World \<Rightarrow> (abort + unit) \<times> Logger \<times> World" where
  "Logger_log lib lvl v l w =
     (if lvl < level l then (Inr (), l, w)
      else (case checkRotate lib l w of
              (Inl a, l1, w1) \<Rightarrow> (Inl a, l1, w1)
            | (Inr u, l1, w1) \<Rightarrow>
                (case levels_at lvl of
                   None \<Rightarrow> (Inl (RuntimeError ''index out of range''), l1, w1)
                 | Some tag \<Rightarrow>
                     (let v1 = AString (tag @ '' '') # v
                      in (Inr (), l1, Output (logger l1) 4 (Sprint lib v1) w1)))))"

definition Logger_logln ::
  "'a stdlib \<Rightarrow> Level \<Rightarrow> 'a any list \<Rightarrow> Logger \<Rightarrow> World \<Rightarrow> (abort + unit) \<times> Logger \<times> World" where
  "Logger_logln lib lvl v l w =
     (if lvl < level l then (Inr (), l, w)
      else (case checkRotate lib l w of
              (Inl a, l1, w1) \<Rightarrow> (Inl a, l1, w1)
            | (Inr u, l1, w1) \<Rightarrow>
                (case levels_at lvl of
                   None \<Rightarrow> (Inl (RuntimeError ''index out of range''), l1, w1)
                 | Some tag \<Rightarrow>
                     (let v1 = AString (tag @ '' '') # v
                      in (Inr (), l1, Output (logger l1) 4 (Sprintln lib v1) w1)))))"

definition Logger_logf ::
  "'a stdlib \<Rightarrow> Level \<Rightarrow> string \<Rightarrow> 'a any list \<Rightarrow> Logger \<Rightarrow> World
     \<Rightarrow> (abort + unit) \<times> Logger \<times> World" where
  "Logger_logf lib lvl format v l w =
     (if lvl < level l then (Inr (), l, w)
      else (case checkRotate lib l w of
              (Inl a, l1, w1) \<Rightarrow> (Inl a, l1, w1)
            | (Inr u, l1, w1) \<Rightarrow>
                (case levels_at lvl of
                   None \<Rightarrow> (Inl (RuntimeError ''index out of range''), l1, w1)
                 | Some tag \<Rightarrow>
                     (let s = tag @ '' '' @ Sprintf lib format v
                      in (Inr (), l1, Output (logger l1) 4 s w1)))))"

section \<open>The exported methods (log.go, lines 188-255)\<close>

text \<open>
  \<open>andThen r a\<close>: the statement after a call runs only when the call returned; here
  it is always \<^verbatim>\<open>os.Exit\<close> or \<^verbatim>\<open>panic\<close>, which end the call with \<open>a\<close>.
\<close>

definition andThen ::
  "(abort + unit) \<times> Logger \<times> World \<Rightarrow> abort \<Rightarrow> (abort + unit) \<times> Logger \<times> World" where
  "andThen r a =
     (case r of (Inl b, l1, w1) \<Rightarrow> (Inl b, l1, w1) | (Inr u, l1, w1) \<Rightarrow> (Inl a, l1, w1))"

definition Logger_Fatal where
  "Logger_Fatal lib v l w = andThen (Logger_log lib Lfatal v l w) (Exited (- 1))"

definition Logger_Fatalf where
  "Logger_Fatalf lib format v l w = andThen (Logger_logf lib Lfatal format v l w) (Exited (- 1))"

definition Logger_Fatalln where
  "Logger_Fatalln lib v l w = andThen (Logger_logln lib Lfatal v l w) (Exited (- 1))"

definition Logger_Panic where
  "Logger_Panic lib v l w = andThen (Logger_log lib Lpanic v l w) (Panicked (Sprint lib v))"

definition Logger_Panicf where
  "Logger_Panicf lib format v l w =
     andThen (Logger_logf lib Lpanic format v l w) (Panicked (Sprintf lib format v))"

definition Logger_Error where
  "Logger_Error lib v l w = Logger_log lib Lerror v l w"

definition Logger_Errorf where
  "Logger_Errorf lib format v l w = Logger_logf lib Lerror format v l w"

definition Logger_Warn where
  "Logger_Warn lib v l w = Logger_log lib Lwarn v l w"

definition Logger_Warnf where
  "Logger_Warnf lib format v l w = Logger_logf lib Lwarn format v l w"

definition Logger_Debug where
  "Logger_Debug lib v l w = Logger_log lib Ldebug v l w"

definition Logger_Debugf where
  "Logger_Debugf lib format v l w = Logger_logf lib Ldebug format v l w"

definition Logger_Info where
  "Logger_Info lib v l w = Logger_log lib Linfo v l w"

definition Logger_Infof where
  "Logger_Infof lib format v l w = Logger_logf lib Linfo format v l w"

definition Logger_Print where
  "Logger_Print lib v l w = Logger_log lib Linfo v l w"

definition Logger_Printf where
  "Logger_Printf lib format v l w = Logger_logf lib Linfo format v l w"

definition Logger_Println where
  "Logger_Println lib v l w = Logger_logln lib Linfo v l w"

text \<open>
  The sixteen methods by name, and the call of each: \<open>format\<close> is used by the
  methods that take a format string and ignored by the others.
\<close>

datatype entry =
    Fatal | Fatalf | Fatalln | Panic | Panicf | Error | Errorf | Warn | Warnf
  | Debug | Debugf | Info | Infof | Print | Printf | Println

definition call ::
  "'a stdlib \<Rightarrow> entry \<Rightarrow> string \<Rightarrow> 'a any list \<Rightarrow> Logger \<Rightarrow> World
     \<Rightarrow> (abort + unit) \<times> Logger \<times> World" where
  "call lib m format v l w =
     (case m of
        Fatal \<Rightarrow> Logger_Fatal lib v l w
      | Fatalf \<Rightarrow> Logger_Fatalf lib format v l w
      | Fatalln \<Rightarrow> Logger_Fatalln lib v l w
      | Panic \<Rightarrow> Logger_Panic lib v l w
      | Panicf \<Rightarrow> Logger_Panicf lib format v l w
      | Error \<Rightarrow> Logger_Error lib v l w
      | Errorf \<Rightarrow> Logger_Errorf lib format v l w
      | Warn \<Rightarrow> Logger_Warn lib v l w
      | Warnf \<Rightarrow> Logger_Warnf lib format v l w
      | Debug \<Rightarrow> Logger_Debug lib v l w
      | Debugf \<Rightarrow> Logger_Debugf lib format v l w
      | Info \<Rightarrow> Logger_Info lib v l w
      | Infof \<Rightarrow> Logger_Infof lib format v l w
      | Print \<Rightarrow> Logger_Print lib v l w
      | Printf \<Rightarrow> Logger_Printf lib format v l w
      | Println \<Rightarrow> Logger_Println lib v l w)"

text \<open>
  The level constant each method passes on, and which of \<^verbatim>\<open>log\<close>, \<^verbatim>\<open>logln\<close> and
  \<^verbatim>\<open>logf\<close> it calls.
\<close>

datatype mode = ModePrint | ModePrintln | ModePrintf

fun severity :: "entry \<Rightarrow> Level" where
  "severity Fatal = Lfatal"
| "severity Fatalf = Lfatal"
| "severity Fatalln = Lfatal"
| "severity Panic = Lpanic"
| "severity Panicf = Lpanic"
| "severity Error = Lerror"
| "severity Errorf = Lerror"
| "severity Warn = Lwarn"
| "severity Warnf = Lwarn"
| "severity Debug = Ldebug"
| "severity Debugf = Ldebug"
| "severity Info = Linfo"
| "severity Infof = Linfo"
| "severity Print = Linfo"
| "severity Printf = Linfo"
| "severity Println = Linfo"

fun rendering :: "entry \<Rightarrow> mode" where
  "rendering Fatal = ModePrint"
| "rendering Fatalf = ModePrintf"
| "rendering Fatalln = ModePrintln"
| "rendering Panic = ModePrint"
| "rendering Panicf = ModePrintf"
| "rendering Error = ModePrint"
| "rendering Errorf = ModePrintf"
| "rendering Warn = ModePrint"
| "rendering Warnf = ModePrintf"
| "rendering Debug = ModePrint"
| "rendering Debugf = ModePrintf"
| "rendering Info = ModePrint"
| "rendering Infof = ModePrintf"
| "rendering Print = ModePrint"
| "rendering Printf = ModePrintf"
| "rendering Println = ModePrintln"

text \<open>The methods named \<^verbatim>\<open>Print*\<close>, which name no severity.\<close>

definition is_alias :: "entry \<Rightarrow> bool" where
  "is_alias m = (m = Print \<or> m = Printf \<or> m = Println)"

definition entries :: "entry list" where
  "entries = [Fatal, Fatalf, Fatalln, Panic, Panicf, Error, Errorf, Warn, Warnf,
              Debug, Debugf, Info, Infof, Print, Printf, Println]"

text \<open>
  The internal function a method calls, by rendering mode, and what the method does
  after it.
\<close>

definition core ::
  "'a stdlib \<Rightarrow> mode \<Rightarrow> Level \<Rightarrow> string \<Rightarrow> 'a any list \<Rightarrow> Logger \<Rightarrow> World
     \<Rightarrow> (abort + unit) \<times> Logger \<times> World" where
  "core lib md lvl format v l w =
     (case md of
        ModePrint \<Rightarrow> Logger_log lib lvl v l w
      | ModePrintln \<Rightarrow> Logger_logln lib lvl v l w
      | ModePrintf \<Rightarrow> Logger_logf lib lvl format v l w)"

section \<open>The package-level functions (log.go, lines 257-319)\<close>

text \<open>
  Each package-level function \<^verbatim>\<open>X(v...)\<close> is \<^verbatim>\<open>Std.X(v...)\<close> on the logger the
  variable \<^verbatim>\<open>Std\<close> holds when it is called; \<open>std\<close> is that logger.
\<close>

definition package_call ::
  "'a stdlib \<Rightarrow> entry \<Rightarrow> string \<Rightarrow> 'a any list \<Rightarrow> Logger \<Rightarrow> World
     \<Rightarrow> (abort + unit) \<times> Logger \<times> World" where
  "package_call lib m format v std w = call lib m format v std w"

section \<open>Observing a call\<close>

text \<open>
  The events a call added, and the lines among them. \<open>rotation_ok\<close>: the rotation
  check of a call on \<open>l\<close> in \<open>w\<close>, if the logger rotates at all, reports no error.
\<close>

definition written :: "World \<Rightarrow> World \<Rightarrow> event list" where
  "written w w' = drop (length (history w)) (history w')"

fun lines :: "event list \<Rightarrow> (StdLogger \<times> nat \<times> string) list" where
  "lines [] = []"
| "lines (LogOutput lg d s # es) = (lg, d, s) # lines es"
| "lines (e # es) = lines es"

definition rotation_ok :: "Logger \<Rightarrow> World \<Rightarrow> bool" where
  "rotation_ok l w = (\<not> shouldRotate l \<or> fst (Logger_rotate l w) = None)"

definition after :: "'r \<times> Logger \<times> World \<Rightarrow> World" where
  "after r = snd (snd r)"

subsection \<open>Concrete values for examples\<close>

definition lib0 :: "nat stdlib" where
  "lib0 = \<lparr>formatV = (\<lambda>n. ''<value>''), errorString = (\<lambda>e. ''<error>''),
           sprintfExt = (\<lambda>f a. ''<sprintf>''), mapToLower = (\<lambda>s. s)\<rparr>"

text \<open>A world where the clock reads 2 January 2024 twice and 3 January from then on,
  and no file operation fails.\<close>

definition w0 :: World where
  "w0 = \<lparr>now = (\<lambda>n. if n < 2 then ''20240102'' else ''20240103''), reads = 0,
         oserr = (\<lambda>h e. None), history = [], allocated = 4, closed = {}\<rparr>"

text \<open>The same world with every rename failing.\<close>

definition w_fail :: World where
  "w_fail = w0\<lparr>oserr := (\<lambda>h e. case e of SysRename a b \<Rightarrow> Some (SysError ''rename failed'') | _ \<Rightarrow> None)\<rparr>"

text \<open>A rotating logger on \<^verbatim>\<open>test.log\<close>, opened on 2 January 2024 as file 3.\<close>

definition rot0 :: Logger where
  "rot0 = \<lparr>logger = log_New (FileWriter 3) '''' Ldefault, level = Linfo, shouldRotate = True,
           timeSuffix = ''20240102'', fileName = ''test.log'', fd = Some 3\<rparr>"

subsection \<open>Shapes used in the statements\<close>

text \<open>
  The three file operations of one rotation of \<open>l\<close>, in the order \<^verbatim>\<open>doRotate\<close> makes
  them: close the open file, rename the base file to the base name, a dot and the
  logger's day suffix, open the base name again (permission 438 is octal 0666).
\<close>

definition rotation_sequence :: "Logger \<Rightarrow> event list" where
  "rotation_sequence l =
     (case fd l of
        None \<Rightarrow> []
      | Some f \<Rightarrow>
          [SysClose f,
           SysRename (fileName l) (fileName l @ ''.'' @ timeSuffix l),
           SysOpenFile (fileName l) [O_CREATE, O_APPEND, O_RDWR] 438])"

text \<open>
  The text each internal function hands to \<^verbatim>\<open>Output\<close> for the tag \<open>tag\<close>:
  \<^verbatim>\<open>fmt.Sprint(v1...)\<close> in \<^verbatim>\<open>log\<close>, \<^verbatim>\<open>fmt.Sprintln(v1...)\<close> in \<^verbatim>\<open>logln\<close>, with
  \<^verbatim>\<open>v1\<close> the tag and a space followed by the operands, and
  \<^verbatim>\<open>tag + " " + fmt.Sprintf(format, v...)\<close> in \<^verbatim>\<open>logf\<close>.
\<close>

definition render :: "'a stdlib \<Rightarrow> mode \<Rightarrow> string \<Rightarrow> string \<Rightarrow> 'a any list \<Rightarrow> string" where
  "render lib md tag format v =
     (case md of
        ModePrint \<Rightarrow> Sprint lib (AString (tag @ '' '') # v)
      | ModePrintln \<Rightarrow> Sprintln lib (AString (tag @ '' '') # v)
      | ModePrintf \<Rightarrow> tag @ '' '' @ Sprintf lib format v)"

section \<open>Lemmas\<close>

lemma levels_at_valid: "lvl \<le> Lfatal \<Longrightarrow> levels_at lvl = Some (levels ! unat lvl)"
  by (simp add: levels_at_def levels_def Lfatal_def word_le_nat_alt)

lemma doPrint_Suc: "doPrint lib (Suc n) p v = doPrint lib (Suc m) p v"
proof (induction v arbitrary: n m p)
  case Nil
  show ?case by simp
next
  case (Cons a r)
  have "doPrint lib (Suc (Suc n)) (isString a) r = doPrint lib (Suc (Suc m)) (isString a) r"
    by (rule Cons.IH)
  then show ?case by simp
qed

lemma Sprint_string_first: "Sprint lib (AString s # v) = s @ Sprint lib v"
proof (cases v)
  case Nil
  then show ?thesis by (simp add: Sprint_def printArg_def)
next
  case (Cons a r)
  have "doPrint lib (Suc (Suc 0)) (isString a) r = doPrint lib (Suc 0) (isString a) r"
    by (rule doPrint_Suc)
  with Cons show ?thesis by (simp add: Sprint_def printArg_def isString_def)
qed

lemma doPrintln_Suc: "doPrintln lib (Suc n) v = doPrintln lib (Suc m) v"
proof (induction v arbitrary: n m)
  case Nil
  show ?case by simp
next
  case (Cons a r)
  have "doPrintln lib (Suc (Suc n)) r = doPrintln lib (Suc (Suc m)) r"
    by (rule Cons.IH)
  then show ?case by simp
qed

lemma Sprintln_string_first:
  "Sprintln lib (AString s # v) = s @ (if v = [] then [CHR 0x0A] else '' '' @ Sprintln lib v)"
proof (cases v)
  case Nil
  then show ?thesis by (simp add: Sprintln_def printArg_def)
next
  case (Cons a r)
  have "doPrintln lib (Suc (Suc 0)) r = doPrintln lib (Suc 0) r"
    by (rule doPrintln_Suc)
  with Cons show ?thesis by (simp add: Sprintln_def printArg_def)
qed

lemma lines_append: "lines (xs @ ys) = lines xs @ lines ys"
  by (induction xs rule: lines.induct) auto

lemma written_self: "written w w = []"
  by (simp add: written_def)

lemma written_append: "history w' = history w @ evs \<Longrightarrow> written w w' = evs"
  by (simp add: written_def)

lemma doRotate_fresh:
  "now w (reads w) = timeSuffix l \<Longrightarrow>
   Logger_doRotate l w = (None, l, w\<lparr>reads := Suc (reads w)\<rparr>)"
  by (simp add: Logger_doRotate_def Now_def)

lemma doRotate_nil:
  "now w (reads w) \<noteq> timeSuffix l \<Longrightarrow> fd l = None \<Longrightarrow>
   Logger_doRotate l w = (Some ErrInvalid, l, w\<lparr>reads := Suc (reads w)\<rparr>)"
  by (simp add: Logger_doRotate_def Now_def os_Close_def)

lemma doRotate_closed:
  "now w (reads w) \<noteq> timeSuffix l \<Longrightarrow> fd l = Some f \<Longrightarrow> f \<in> closed w \<Longrightarrow>
   Logger_doRotate l w = (Some ErrClosed, l, w\<lparr>reads := Suc (reads w)\<rparr>)"
  by (simp add: Logger_doRotate_def Now_def os_Close_def)

lemma doRotate_close_fails:
  "now w (reads w) \<noteq> timeSuffix l \<Longrightarrow> fd l = Some f \<Longrightarrow> f \<notin> closed w \<Longrightarrow>
   oserr w (history w) (SysClose f) = Some e \<Longrightarrow>
   Logger_doRotate l w =
     (Some e, l, w\<lparr>reads := Suc (reads w), history := history w @ [SysClose f],
                    closed := insert f (closed w)\<rparr>)"
  by (simp add: Logger_doRotate_def Now_def os_Close_def)

lemma doRotate_rename_fails:
  "now w (reads w) \<noteq> timeSuffix l \<Longrightarrow> fd l = Some f \<Longrightarrow> f \<notin> closed w \<Longrightarrow>
   oserr w (history w) (SysClose f) = None \<Longrightarrow>
   oserr w (history w @ [SysClose f])
     (SysRename (fileName l) (fileName l @ ''.'' @ timeSuffix l)) = Some e \<Longrightarrow>
   Logger_doRotate l w =
     (Some e, l,
      w\<lparr>reads := Suc (reads w),
        history := history w @ [SysClose f, SysRename (fileName l) (fileName l @ ''.'' @ timeSuffix l)],
        closed := insert f (closed w)\<rparr>)"
  by (simp add: Logger_doRotate_def Now_def os_Close_def os_Rename_def)

lemma doRotate_open_fails:
  "now w (reads w) \<noteq> timeSuffix l \<Longrightarrow> fd l = Some f \<Longrightarrow> f \<notin> closed w \<Longrightarrow>
   oserr w (history w) (SysClose f) = None \<Longrightarrow>
   oserr w (history w @ [SysClose f])
     (SysRename (fileName l) (fileName l @ ''.'' @ timeSuffix l)) = None \<Longrightarrow>
   oserr w (history w @ [SysClose f, SysRename (fileName l) (fileName l @ ''.'' @ timeSuffix l)])
     (SysOpenFile (fileName l) [O_CREATE, O_APPEND, O_RDWR] 438) = Some e \<Longrightarrow>
   Logger_doRotate l w =
     (Some e, l,
      w\<lparr>reads := Suc (reads w),
        history := history w @ rotation_sequence l,
        closed := insert f (closed w)\<rparr>)"
  by (simp add: Logger_doRotate_def Now_def os_Close_def os_Rename_def os_OpenFile_def
      rotation_sequence_def)

lemma doRotate_done:
  "now w (reads w) \<noteq> timeSuffix l \<Longrightarrow> fd l = Some f \<Longrightarrow> f \<notin> closed w \<Longrightarrow>
   oserr w (history w) (SysClose f) = None \<Longrightarrow>
   oserr w (history w @ [SysClose f])
     (SysRename (fileName l) (fileName l @ ''.'' @ timeSuffix l)) = None \<Longrightarrow>
   oserr w (history w @ [SysClose f, SysRename (fileName l) (fileName l @ ''.'' @ timeSuffix l)])
     (SysOpenFile (fileName l) [O_CREATE, O_APPEND, O_RDWR] 438) = None \<Longrightarrow>
   Logger_doRotate l w =
     (None,
      l\<lparr>logger := SetOutput (logger l) (FileWriter (allocated w)),
        fd := Some (allocated w), timeSuffix := now w (reads w)\<rparr>,
      w\<lparr>reads := Suc (reads w),
        history := history w @ rotation_sequence l,
        allocated := Suc (allocated w),
        closed := insert f (closed w)\<rparr>)"
  by (simp add: Logger_doRotate_def Now_def os_Close_def os_Rename_def os_OpenFile_def
      rotation_sequence_def)


lemma lines_rotation_sequence: "lines (take n (rotation_sequence l)) = []"
proof (cases "fd l")
  case None
  then show ?thesis by (simp add: rotation_sequence_def)
next
  case (Some f)
  have "n = 0 \<or> n = 1 \<or> n = 2 \<or> 3 \<le> n" by arith
  with Some show ?thesis by (auto simp: rotation_sequence_def take_Cons')
qed

lemma doRotate_history:
  "\<exists>n. history (after (Logger_doRotate l w)) = history w @ take n (rotation_sequence l)"
proof (cases "now w (reads w) = timeSuffix l")
  case True
  have "history (after (Logger_doRotate l w)) = history w @ take 0 (rotation_sequence l)"
    by (simp add: doRotate_fresh [OF True] after_def)
  then show ?thesis ..
next
  case stale: False
  show ?thesis
  proof (cases "fd l")
    case None
    have "history (after (Logger_doRotate l w)) = history w @ take 0 (rotation_sequence l)"
      by (simp add: doRotate_nil [OF stale None] after_def)
    then show ?thesis ..
  next
    case (Some f)
    show ?thesis
    proof (cases "f \<in> closed w")
      case True
      have "history (after (Logger_doRotate l w)) = history w @ take 0 (rotation_sequence l)"
        by (simp add: doRotate_closed [OF stale Some True] after_def)
      then show ?thesis ..
    next
      case opn: False
      show ?thesis
      proof (cases "oserr w (history w) (SysClose f)")
        case (Some e)
        have "history (after (Logger_doRotate l w)) = history w @ take 1 (rotation_sequence l)"
          using \<open>fd l = Some f\<close>
          by (simp add: doRotate_close_fails [OF stale \<open>fd l = Some f\<close> opn Some] after_def
              rotation_sequence_def)
        then show ?thesis ..
      next
        case c: None
        show ?thesis
        proof (cases "oserr w (history w @ [SysClose f])
                        (SysRename (fileName l) (fileName l @ ''.'' @ timeSuffix l))")
          case (Some e)
          have "history (after (Logger_doRotate l w)) = history w @ take 2 (rotation_sequence l)"
            using \<open>fd l = Some f\<close>
            by (simp add: doRotate_rename_fails [OF stale \<open>fd l = Some f\<close> opn c Some] after_def
                rotation_sequence_def)
          then show ?thesis ..
        next
          case r: None
          show ?thesis
          proof (cases "oserr w (history w @ [SysClose f,
                          SysRename (fileName l) (fileName l @ ''.'' @ timeSuffix l)])
                          (SysOpenFile (fileName l) [O_CREATE, O_APPEND, O_RDWR] 438)")
            case (Some e)
            have "history (after (Logger_doRotate l w)) = history w @ take 3 (rotation_sequence l)"
              using \<open>fd l = Some f\<close>
              by (simp add: doRotate_open_fails [OF stale \<open>fd l = Some f\<close> opn c r Some] after_def
                  rotation_sequence_def)
            then show ?thesis ..
          next
            case None
            have "history (after (Logger_doRotate l w)) = history w @ take 3 (rotation_sequence l)"
              using \<open>fd l = Some f\<close>
              by (simp add: doRotate_done [OF stale \<open>fd l = Some f\<close> opn c r None] after_def
                  rotation_sequence_def)
            then show ?thesis ..
          qed
        qed
      qed
    qed
  qed
qed

lemma rotate_fresh:
  "now w (reads w) = timeSuffix l \<Longrightarrow>
   Logger_rotate l w = (None, l, w\<lparr>reads := Suc (reads w)\<rparr>)"
  by (simp add: Logger_rotate_def Now_def)

lemma rotate_stale:
  "now w (reads w) \<noteq> timeSuffix l \<Longrightarrow>
   Logger_rotate l w = Logger_doRotate l (w\<lparr>reads := Suc (reads w)\<rparr>)"
proof -
  assume stale: "now w (reads w) \<noteq> timeSuffix l"
  obtain r l2 w2 where d: "Logger_doRotate l (w\<lparr>reads := Suc (reads w)\<rparr>) = (r, l2, w2)"
    by (cases "Logger_doRotate l (w\<lparr>reads := Suc (reads w)\<rparr>)") auto
  show ?thesis
    using stale by (cases r) (simp_all add: Logger_rotate_def Now_def d)
qed

lemma rotate_history:
  "\<exists>n. history (after (Logger_rotate l w)) = history w @ take n (rotation_sequence l)"
proof (cases "now w (reads w) = timeSuffix l")
  case True
  have "history (after (Logger_rotate l w)) = history w @ take 0 (rotation_sequence l)"
    by (simp add: rotate_fresh [OF True] after_def)
  then show ?thesis ..
next
  case False
  show ?thesis
    using doRotate_history [of l "w\<lparr>reads := Suc (reads w)\<rparr>"]
    by (simp add: rotate_stale [OF False])
qed

lemma rotate_writes_no_line: "lines (written w (after (Logger_rotate l w))) = []"
proof -
  obtain n where "history (after (Logger_rotate l w)) = history w @ take n (rotation_sequence l)"
    using rotate_history by blast
  then show ?thesis
    by (simp add: written_def lines_rotation_sequence)
qed


lemma checkRotate_off: "\<not> shouldRotate l \<Longrightarrow> checkRotate lib l w = (Inr (), l, w)"
  by (simp add: checkRotate_def)

lemma checkRotate_ok:
  "shouldRotate l \<Longrightarrow> Logger_rotate l w = (None, l1, w1) \<Longrightarrow>
   checkRotate lib l w = (Inr (), l1, w1)"
  by (simp add: checkRotate_def)

lemma Sprint_rotate_failed:
  "Sprint lib [AString s, AError err] = s @ errorString lib err"
  by (simp add: Sprint_def printArg_def isString_def)

lemma checkRotate_fail:
  "shouldRotate l \<Longrightarrow> Logger_rotate l w = (Some err, l1, w1) \<Longrightarrow>
   checkRotate lib l w =
     (Inl (Exited 1), l1, Output log_std 2 (''log rotate failed.'' @ errorString lib err) w1)"
  by (simp add: checkRotate_def log_Fatal_def Sprint_rotate_failed)

lemma checkRotate_okE:
  assumes "rotation_ok l w"
  obtains l1 w1 evs where "checkRotate lib l w = (Inr (), l1, w1)"
    and "history w1 = history w @ evs" and "lines evs = []"
proof (cases "shouldRotate l")
  case False
  then have "checkRotate lib l w = (Inr (), l, w)" by (rule checkRotate_off)
  moreover have "history w = history w @ []" by simp
  moreover have "lines [] = []" by simp
  ultimately show ?thesis by (rule that)
next
  case True
  obtain r l1 w1 where rot: "Logger_rotate l w = (r, l1, w1)"
    by (cases "Logger_rotate l w") auto
  with assms True have "r = None" by (simp add: rotation_ok_def)
  with rot True have "checkRotate lib l w = (Inr (), l1, w1)"
    by (simp add: checkRotate_ok)
  moreover obtain n where "history w1 = history w @ take n (rotation_sequence l)"
    using rotate_history [of l w] rot by (auto simp: after_def)
  moreover have "lines (take n (rotation_sequence l)) = []"
    by (rule lines_rotation_sequence)
  ultimately show ?thesis by (rule that)
qed

lemma core_filtered: "lvl < level l \<Longrightarrow> core lib md lvl format v l w = (Inr (), l, w)"
  by (cases md) (simp_all add: core_def Logger_log_def Logger_logln_def Logger_logf_def)

lemma core_passes:
  "\<not> lvl < level l \<Longrightarrow> lvl \<le> Lfatal \<Longrightarrow> checkRotate lib l w = (Inr (), l1, w1) \<Longrightarrow>
   core lib md lvl format v l w =
     (Inr (), l1, Output (logger l1) 4 (render lib md (levels ! unat lvl) format v) w1)"
  by (cases md)
     (simp_all add: core_def Logger_log_def Logger_logln_def Logger_logf_def levels_at_valid
        render_def)

lemma core_aborts:
  "\<not> lvl < level l \<Longrightarrow> checkRotate lib l w = (Inl a, l1, w1) \<Longrightarrow>
   core lib md lvl format v l w = (Inl a, l1, w1)"
  by (cases md) (simp_all add: core_def Logger_log_def Logger_logln_def Logger_logf_def)

lemma doRotate_cases [case_names fresh nil closed close_fails rename_fails open_fails rotated]:
  obtains
    (fresh) "now w (reads w) = timeSuffix l"
      "Logger_doRotate l w = (None, l, w\<lparr>reads := Suc (reads w)\<rparr>)"
  | (nil) "now w (reads w) \<noteq> timeSuffix l" "fd l = None"
      "Logger_doRotate l w = (Some ErrInvalid, l, w\<lparr>reads := Suc (reads w)\<rparr>)"
  | (closed) f where "now w (reads w) \<noteq> timeSuffix l" "fd l = Some f" "f \<in> closed w"
      "Logger_doRotate l w = (Some ErrClosed, l, w\<lparr>reads := Suc (reads w)\<rparr>)"
  | (close_fails) f e where "now w (reads w) \<noteq> timeSuffix l" "fd l = Some f" "f \<notin> closed w"
      "oserr w (history w) (SysClose f) = Some e"
      "Logger_doRotate l w =
         (Some e, l, w\<lparr>reads := Suc (reads w), history := history w @ [SysClose f],
                        closed := insert f (closed w)\<rparr>)"
  | (rename_fails) f e where "now w (reads w) \<noteq> timeSuffix l" "fd l = Some f" "f \<notin> closed w"
      "oserr w (history w) (SysClose f) = None"
      "oserr w (history w @ [SysClose f])
         (SysRename (fileName l) (fileName l @ ''.'' @ timeSuffix l)) = Some e"
      "Logger_doRotate l w =
         (Some e, l,
          w\<lparr>reads := Suc (reads w),
            history := history w @ [SysClose f,
              SysRename (fileName l) (fileName l @ ''.'' @ timeSuffix l)],
            closed := insert f (closed w)\<rparr>)"
  | (open_fails) f e where "now w (reads w) \<noteq> timeSuffix l" "fd l = Some f" "f \<notin> closed w"
      "oserr w (history w) (SysClose f) = None"
      "oserr w (history w @ [SysClose f])
         (SysRename (fileName l) (fileName l @ ''.'' @ timeSuffix l)) = None"
      "Logger_doRotate l w =
         (Some e, l,
          w\<lparr>reads := Suc (reads w), history := history w @ rotation_sequence l,
            closed := insert f (closed w)\<rparr>)"
  | (rotated) f where "now w (reads w) \<noteq> timeSuffix l" "fd l = Some f" "f \<notin> closed w"
      "oserr w (history w) (SysClose f) = None"
      "oserr w (history w @ [SysClose f])
         (SysRename (fileName l) (fileName l @ ''.'' @ timeSuffix l)) = None"
      "Logger_doRotate l w =
         (None,
          l\<lparr>logger := SetOutput (logger l) (FileWriter (allocated w)),
            fd := Some (allocated w), timeSuffix := now w (reads w)\<rparr>,
          w\<lparr>reads := Suc (reads w), history := history w @ rotation_sequence l,
            allocated := Suc (allocated w), closed := insert f (closed w)\<rparr>)"
proof (cases "now w (reads w) = timeSuffix l")
  case True
  show ?thesis by (rule fresh [OF True doRotate_fresh [OF True]])
next
  case stale: False
  show ?thesis
  proof (cases "fd l")
    case None
    show ?thesis by (rule nil [OF stale None doRotate_nil [OF stale None]])
  next
    case (Some f)
    note fd = this
    show ?thesis
    proof (cases "f \<in> closed w")
      case True
      show ?thesis by (rule closed [OF stale fd True doRotate_closed [OF stale fd True]])
    next
      case opn: False
      show ?thesis
      proof (cases "oserr w (history w) (SysClose f)")
        case (Some e)
        show ?thesis
          by (rule close_fails [OF stale fd opn Some doRotate_close_fails [OF stale fd opn Some]])
      next
        case c: None
        show ?thesis
        proof (cases "oserr w (history w @ [SysClose f])
                        (SysRename (fileName l) (fileName l @ ''.'' @ timeSuffix l))")
          case (Some e)
          show ?thesis
            by (rule rename_fails [OF stale fd opn c Some
                  doRotate_rename_fails [OF stale fd opn c Some]])
        next
          case r: None
          show ?thesis
          proof (cases "oserr w (history w @ [SysClose f,
                          SysRename (fileName l) (fileName l @ ''.'' @ timeSuffix l)])
                          (SysOpenFile (fileName l) [O_CREATE, O_APPEND, O_RDWR] 438)")
            case (Some e)
            show ?thesis
              by (rule open_fails [OF stale fd opn c r doRotate_open_fails [OF stale fd opn c r Some]])
          next
            case None
            show ?thesis
              by (rule rotated [OF stale fd opn c r doRotate_done [OF stale fd opn c r None]])
          qed
        qed
      qed
    qed
  qed
qed

lemma doRotate_error_keeps_logger:
  "Logger_doRotate l w = (Some err, l1, w1) \<Longrightarrow> l1 = l"
  by (cases l w rule: doRotate_cases) simp_all

lemma rotate_error_keeps_logger:
  "Logger_rotate l w = (Some err, l1, w1) \<Longrightarrow> l1 = l"
proof (cases "now w (reads w) = timeSuffix l")
  case True
  assume "Logger_rotate l w = (Some err, l1, w1)"
  with rotate_fresh [OF True] show ?thesis by simp
next
  case False
  assume "Logger_rotate l w = (Some err, l1, w1)"
  with rotate_stale [OF False]
  have "Logger_doRotate l (w\<lparr>reads := Suc (reads w)\<rparr>) = (Some err, l1, w1)" by simp
  then show ?thesis by (rule doRotate_error_keeps_logger)
qed

lemma andThen_Inl: "andThen (Inl a, l, w) b = (Inl a, l, w)"
  by (simp add: andThen_def)

lemma andThen_Inr: "andThen (Inr u, l, w) b = (Inl b, l, w)"
  by (simp add: andThen_def)

lemma call_via_core:
  "call lib m format v l w =
     (if m = Fatal \<or> m = Fatalf \<or> m = Fatalln
      then andThen (core lib (rendering m) (severity m) format v l w) (Exited (- 1))
      else if m = Panic
      then andThen (core lib (rendering m) (severity m) format v l w) (Panicked (Sprint lib v))
      else if m = Panicf
      then andThen (core lib (rendering m) (severity m) format v l w)
             (Panicked (Sprintf lib format v))
      else core lib (rendering m) (severity m) format v l w)"
  by (cases m)
     (simp_all add: call_def core_def Logger_Fatal_def Logger_Fatalf_def Logger_Fatalln_def
        Logger_Panic_def Logger_Panicf_def Logger_Error_def Logger_Errorf_def Logger_Warn_def
        Logger_Warnf_def Logger_Debug_def Logger_Debugf_def Logger_Info_def Logger_Infof_def
        Logger_Print_def Logger_Printf_def Logger_Println_def)

lemma call_aborts:
  "core lib (rendering m) (severity m) format v l w = (Inl a, l1, w1) \<Longrightarrow>
   call lib m format v l w = (Inl a, l1, w1)"
  by (cases m) (simp_all add: call_via_core andThen_Inl)

lemma render_Print: "render lib ModePrint tag format v = tag @ '' '' @ Sprint lib v"
  by (simp add: render_def Sprint_string_first)

lemma render_Printf: "render lib ModePrintf tag format v = tag @ '' '' @ Sprintf lib format v"
  by (simp add: render_def)

lemma render_Println:
  "render lib ModePrintln tag format v =
     tag @ '' '' @ (if v = [] then [CHR 0x0A] else '' '' @ Sprintln lib v)"
  by (simp add: render_def Sprintln_string_first)

lemma core_emits:
  assumes ok: "rotation_ok l w" and ge: "level l \<le> lvl" and valid: "lvl \<le> Lfatal"
  obtains l1 w1 where "checkRotate lib l w = (Inr (), l1, w1)"
    and "core lib md lvl format v l w =
           (Inr (), l1, Output (logger l1) 4 (render lib md (levels ! unat lvl) format v) w1)"
    and "lines (written w (Output (logger l1) 4 (render lib md (levels ! unat lvl) format v) w1)) =
           [(logger l1, 4, render lib md (levels ! unat lvl) format v)]"
proof -
  obtain l1 w1 evs where c: "checkRotate lib l w = (Inr (), l1, w1)"
    and h: "history w1 = history w @ evs" and q: "lines evs = []"
    using ok by (rule checkRotate_okE)
  from ge have nlt: "\<not> lvl < level l" by simp
  have e: "core lib md lvl format v l w =
      (Inr (), l1, Output (logger l1) 4 (render lib md (levels ! unat lvl) format v) w1)"
    using nlt valid c by (rule core_passes)
  have "lines (written w (Output (logger l1) 4 (render lib md (levels ! unat lvl) format v) w1))
      = [(logger l1, 4, render lib md (levels ! unat lvl) format v)]"
    by (simp add: written_def Output_def h lines_append q)
  with c e show ?thesis by (rule that)
qed

lemma core_rotation_fails:
  assumes bad: "\<not> rotation_ok l w" and ge: "level l \<le> lvl"
  obtains l1 w1 where "core lib md lvl format v l w = (Inl (Exited 1), l1, w1)"
proof -
  from bad have rot: "shouldRotate l" and "fst (Logger_rotate l w) \<noteq> None"
    by (simp_all add: rotation_ok_def)
  then obtain err l1 w1 where r: "Logger_rotate l w = (Some err, l1, w1)"
    by (cases "Logger_rotate l w") auto
  from ge have "\<not> lvl < level l" by simp
  then have "core lib md lvl format v l w =
      (Inl (Exited 1), l1, Output log_std 2 (''log rotate failed.'' @ errorString lib err) w1)"
    using checkRotate_fail [OF rot r] by (rule core_aborts)
  then show ?thesis by (rule that)
qed

lemma call_Fatal:
  "m = Fatal \<or> m = Fatalf \<or> m = Fatalln \<Longrightarrow>
   call lib m format v l w =
     andThen (core lib (rendering m) Lfatal format v l w) (Exited (- 1))"
  by (auto simp: call_via_core)

lemma call_Panic:
  "m = Panic \<or> m = Panicf \<Longrightarrow>
   call lib m format v l w =
     andThen (core lib (rendering m) Lpanic format v l w)
       (Panicked (if m = Panic then Sprint lib v else Sprintf lib format v))"
  by (auto simp: call_via_core)

lemma levels_Fatal: "levels ! unat Lfatal = ''FATAL''"
  by (simp add: levels_def Lfatal_def)

lemma levels_Panic: "levels ! unat Lpanic = ''PANIC''"
  by (simp add: levels_def Lpanic_def)




lemma rotate_nil:
  "now w (reads w) \<noteq> timeSuffix l \<Longrightarrow> now w (Suc (reads w)) \<noteq> timeSuffix l \<Longrightarrow>
   fd l = None \<Longrightarrow>
   Logger_rotate l w = (Some ErrInvalid, l, w\<lparr>reads := Suc (Suc (reads w))\<rparr>)"
  by (simp add: rotate_stale doRotate_nil)

lemma rotate_closed:
  "now w (reads w) \<noteq> timeSuffix l \<Longrightarrow> now w (Suc (reads w)) \<noteq> timeSuffix l \<Longrightarrow>
   fd l = Some f \<Longrightarrow> f \<in> closed w \<Longrightarrow>
   Logger_rotate l w = (Some ErrClosed, l, w\<lparr>reads := Suc (Suc (reads w))\<rparr>)"
  by (simp add: rotate_stale doRotate_closed)

lemma take_rotation_sequence:
  "fd l = Some f \<Longrightarrow>
   [SysClose f] = take 1 (rotation_sequence l) \<and>
   [SysClose f, SysRename (fileName l) (fileName l @ ''.'' @ timeSuffix l)] =
     take 2 (rotation_sequence l) \<and>
   rotation_sequence l = take 3 (rotation_sequence l)"
  by (simp add: rotation_sequence_def)

lemma two_checks_same_day:
  assumes day: "\<forall>n \<ge> reads w. now w n = d"
    and first: "Logger_rotate l w = (r1, l1, w1)"
    and second: "Logger_rotate l1 w1 = (r2, l2, w2)"
  shows "(\<exists>n. written w w2 = take n (rotation_sequence l)) \<and>
         (r1 = None \<longrightarrow> r2 = None \<and> l2 = l1 \<and> w2 = w1\<lparr>reads := Suc (reads w1)\<rparr>)"
proof (cases "timeSuffix l = d")
  case True
  from day have n0: "now w (reads w) = d" and n1: "now w (Suc (reads w)) = d" by simp_all
  from n0 True have "now w (reads w) = timeSuffix l" by simp
  from rotate_fresh [OF this] first

    have 1: "r1 = None" "l1 = l" "w1 = w\<lparr>reads := Suc (reads w)\<rparr>" by simp_all
  with n1 True have "now w1 (reads w1) = timeSuffix l1" by simp
  from rotate_fresh [OF this] second
  have 2: "r2 = None" "l2 = l1" "w2 = w1\<lparr>reads := Suc (reads w1)\<rparr>" by simp_all
  have "written w w2 = take 0 (rotation_sequence l)"
    by (simp add: 1 2 written_def)
  then have "\<exists>n. written w w2 = take n (rotation_sequence l)" ..
  with 2 show ?thesis by simp
next
  case False
  let ?w = "w\<lparr>reads := Suc (reads w)\<rparr>"
  from day have n: "now w (reads w) = d" "now w (Suc (reads w)) = d"
    "now w (Suc (Suc (reads w))) = d" "now w (Suc (Suc (Suc (reads w)))) = d"
    by simp_all
  from n False have stale: "now w (reads w) \<noteq> timeSuffix l" by simp
  from rotate_stale [OF stale] first have d1: "Logger_doRotate l ?w = (r1, l1, w1)" by simp
  show ?thesis
  proof (cases rule: doRotate_cases [where w = ?w and l = l])
    case fresh
    with n False show ?thesis by simp
  next
    case nil
    from trans [OF d1 [symmetric] nil(3)]
    have 1: "r1 = Some ErrInvalid" "l1 = l" "w1 = w\<lparr>reads := Suc (Suc (reads w))\<rparr>"
      by simp_all
    have "Logger_rotate l1 w1 = (Some ErrInvalid, l, w1\<lparr>reads := Suc (Suc (reads w1))\<rparr>)"
      using n False nil(2) by (simp add: 1 rotate_nil)
    with second have "w2 = w1\<lparr>reads := Suc (Suc (reads w1))\<rparr>" by simp
    then have "written w w2 = take 0 (rotation_sequence l)"
      by (simp add: 1 written_def)
    then have "\<exists>n. written w w2 = take n (rotation_sequence l)" ..
    with 1 show ?thesis by simp
  next
    case (closed f)
    from trans [OF d1 [symmetric] closed(4)]
    have 1: "r1 = Some ErrClosed" "l1 = l" "w1 = w\<lparr>reads := Suc (Suc (reads w))\<rparr>"
      by simp_all
    have "Logger_rotate l1 w1 = (Some ErrClosed, l, w1\<lparr>reads := Suc (Suc (reads w1))\<rparr>)"
      using n False closed(2,3) by (simp add: 1 rotate_closed)
    with second have "w2 = w1\<lparr>reads := Suc (Suc (reads w1))\<rparr>" by simp
    then have "written w w2 = take 0 (rotation_sequence l)"
      by (simp add: 1 written_def)
    then have "\<exists>n. written w w2 = take n (rotation_sequence l)" ..
    with 1 show ?thesis by simp
  next
    case (close_fails f e)
    from trans [OF d1 [symmetric] close_fails(5)]
    have 1: "r1 = Some e" "l1 = l"
      "w1 = w\<lparr>reads := Suc (Suc (reads w)), history := history w @ [SysClose f],
              closed := insert f (closed w)\<rparr>"
      by simp_all
    have "Logger_rotate l1 w1 = (Some ErrClosed, l, w1\<lparr>reads := Suc (Suc (reads w1))\<rparr>)"
      using n False close_fails(2) by (simp add: 1 rotate_closed)
    with second have "w2 = w1\<lparr>reads := Suc (Suc (reads w1))\<rparr>" by simp
    then have "written w w2 = take 1 (rotation_sequence l)"
      using take_rotation_sequence [OF close_fails(2)] by (simp add: 1 written_def)
    then have "\<exists>n. written w w2 = take n (rotation_sequence l)" ..
    with 1 show ?thesis by simp
  next
    case (rename_fails f e)
    from trans [OF d1 [symmetric] rename_fails(6)]
    have 1: "r1 = Some e" "l1 = l"
      "w1 = w\<lparr>reads := Suc (Suc (reads w)),
              history := history w @ [SysClose f,
                SysRename (fileName l) (fileName l @ ''.'' @ timeSuffix l)],
              closed := insert f (closed w)\<rparr>"
      by simp_all
    have "Logger_rotate l1 w1 = (Some ErrClosed, l, w1\<lparr>reads := Suc (Suc (reads w1))\<rparr>)"
      using n False rename_fails(2) by (simp add: 1 rotate_closed)
    with second have "w2 = w1\<lparr>reads := Suc (Suc (reads w1))\<rparr>" by simp
    then have "written w w2 = take 2 (rotation_sequence l)"
      using take_rotation_sequence [OF rename_fails(2)] by (simp add: 1 written_def)
    then have "\<exists>n. written w w2 = take n (rotation_sequence l)" ..
    with 1 show ?thesis by simp
  next
    case (open_fails f e)
    from trans [OF d1 [symmetric] open_fails(6)]
    have 1: "r1 = Some e" "l1 = l"
      "w1 = w\<lparr>reads := Suc (Suc (reads w)), history := history w @ rotation_sequence l,
              closed := insert f (closed w)\<rparr>"
      by simp_all
    have "Logger_rotate l1 w1 = (Some ErrClosed, l, w1\<lparr>reads := Suc (Suc (reads w1))\<rparr>)"
      using n False open_fails(2) by (simp add: 1 rotate_closed)
    with second have "w2 = w1\<lparr>reads := Suc (Suc (reads w1))\<rparr>" by simp
    then have "written w w2 = take 3 (rotation_sequence l)"
      using take_rotation_sequence [OF open_fails(2)] by (simp add: 1 written_def)
    then have "\<exists>n. written w w2 = take n (rotation_sequence l)" ..
    with 1 show ?thesis by simp
  next
    case (rotated f)
    from trans [OF d1 [symmetric] rotated(6)]
    have 1: "r1 = None"
      "l1 = l\<lparr>logger := SetOutput (logger l) (FileWriter (allocated w)),
              fd := Some (allocated w), timeSuffix := now w (Suc (reads w))\<rparr>"
      "w1 = w\<lparr>reads := Suc (Suc (reads w)), history := history w @ rotation_sequence l,
              allocated := Suc (allocated w), closed := insert f (closed w)\<rparr>"
      by simp_all
    have "now w1 (reads w1) = timeSuffix l1" using n by (simp add: 1)
    from rotate_fresh [OF this] second
    have 2: "r2 = None" "l2 = l1" "w2 = w1\<lparr>reads := Suc (reads w1)\<rparr>" by simp_all
    have "written w w2 = take 3 (rotation_sequence l)"
      using take_rotation_sequence [OF rotated(2)] by (simp add: 1 2 written_def)
    then have "\<exists>n. written w w2 = take n (rotation_sequence l)" ..
    with 2 show ?thesis by simp
  qed
qed

lemma level_cases:
  "L \<le> Lfatal \<Longrightarrow>
   L = Ldebug \<or> L = Linfo \<or> L = Lwarn \<or> L = Lerror \<or> L = Lpanic \<or> L = Lfatal"
proof -
  assume "L \<le> Lfatal"
  then have "unat L \<le> 5" by (simp add: Lfatal_def word_le_nat_alt)
  then have "unat L = 0 \<or> unat L = 1 \<or> unat L = 2 \<or> unat L = 3 \<or> unat L = 4 \<or> unat L = 5"
    by arith
  then show ?thesis
    by (auto simp: Ldebug_def Linfo_def Lwarn_def Lerror_def Lpanic_def Lfatal_def
        word_unat_eq_iff)
qed

lemma lower_tags:
  "map lowerByte (levels ! unat Ldebug) = ''debug''"
  "map lowerByte (levels ! unat Linfo) = ''info''"
  "map lowerByte (levels ! unat Lwarn) = ''warn''"
  "map lowerByte (levels ! unat Lerror) = ''error''"
  "map lowerByte (levels ! unat Lpanic) = ''panic''"
  "map lowerByte (levels ! unat Lfatal) = ''fatal''"
  by (simp_all add: levels_def Ldebug_def Linfo_def Lwarn_def Lerror_def Lpanic_def Lfatal_def
      lowerByte_def isUpper_def char_of_def bit_0)

lemma ToLower_ASCII: "isASCII s \<Longrightarrow> ToLower lib s = map lowerByte s"
proof -
  assume a: "isASCII s"
  have "map lowerByte s = s" if "\<not> list_ex isUpper s"
    using that by (induction s) (simp_all add: lowerByte_def)
  with a show ?thesis by (auto simp: ToLower_def)
qed

lemma ParseLevel_tokens:
  "ParseLevel lib s = (Ldebug, None) \<longleftrightarrow> ToLower lib s = ''debug''"
  "ParseLevel lib s = (Linfo, None) \<longleftrightarrow> ToLower lib s = ''info''"
  "ParseLevel lib s = (Lwarn, None) \<longleftrightarrow> ToLower lib s = ''warn''"
  "ParseLevel lib s = (Lerror, None) \<longleftrightarrow> ToLower lib s = ''error''"
  "ParseLevel lib s = (Lpanic, None) \<longleftrightarrow> ToLower lib s = ''panic''"
  "ParseLevel lib s = (Lfatal, None) \<longleftrightarrow> ToLower lib s = ''fatal''"
  by (auto simp: ParseLevel_def Let_def Ldebug_def Linfo_def Lwarn_def Lerror_def Lpanic_def
      Lfatal_def)

lemma ParseLevel_other:
  "ToLower lib s \<noteq> ''debug'' \<Longrightarrow> ToLower lib s \<noteq> ''info'' \<Longrightarrow> ToLower lib s \<noteq> ''warn'' \<Longrightarrow>
   ToLower lib s \<noteq> ''error'' \<Longrightarrow> ToLower lib s \<noteq> ''panic'' \<Longrightarrow> ToLower lib s \<noteq> ''fatal'' \<Longrightarrow>
   ParseLevel lib s = (Ldebug, Some (fmt_Errorf ''invalid log Level: %q'' s))"
  by (simp add: ParseLevel_def Ldebug_def)

lemma after_andThen: "after (andThen r a) = after r"
  by (cases r) (auto simp: andThen_def after_def split: sum.splits)

lemma logger_andThen: "fst (snd (andThen r a)) = fst (snd r)"
  by (cases r) (auto simp: andThen_def split: sum.splits)

lemma call_world: "after (call lib m format v l w) = after (core lib (rendering m) (severity m) format v l w)"
  by (simp add: call_via_core after_andThen)

lemma call_logger:
  "fst (snd (call lib m format v l w)) =
   fst (snd (core lib (rendering m) (severity m) format v l w))"
  by (simp add: call_via_core logger_andThen)

lemma severity_valid: "severity m \<le> Lfatal"
  by (cases m) (simp_all add: Ldebug_def Linfo_def Lwarn_def Lerror_def Lpanic_def Lfatal_def)

lemma rotate_step_fails:
  assumes stale: "now w (reads w) \<noteq> timeSuffix l" and stale2: "now w (Suc (reads w)) \<noteq> timeSuffix l"
    and fd: "fd l = Some f" and opn: "f \<notin> closed w"
    and fails:
      "oserr w (history w) (SysClose f) = Some e \<or>
       oserr w (history w) (SysClose f) = None \<and>
         oserr w (history w @ [SysClose f])
           (SysRename (fileName l) (fileName l @ ''.'' @ timeSuffix l)) = Some e \<or>
       oserr w (history w) (SysClose f) = None \<and>
         oserr w (history w @ [SysClose f])
           (SysRename (fileName l) (fileName l @ ''.'' @ timeSuffix l)) = None \<and>
         oserr w (history w @ [SysClose f,
             SysRename (fileName l) (fileName l @ ''.'' @ timeSuffix l)])
           (SysOpenFile (fileName l) [O_CREATE, O_APPEND, O_RDWR] 438) = Some e"
  shows "fst (Logger_rotate l w) = Some e"
proof -
  let ?w = "w\<lparr>reads := Suc (reads w)\<rparr>"
  have r: "Logger_rotate l w = Logger_doRotate l ?w" using stale by (rule rotate_stale)
  have s: "now ?w (reads ?w) \<noteq> timeSuffix l" using stale2 by simp
  have o: "f \<notin> closed ?w" using opn by simp
  from fails show ?thesis
  proof (elim disjE conjE)
    assume "oserr w (history w) (SysClose f) = Some e"
    then have "oserr ?w (history ?w) (SysClose f) = Some e" by simp
    from doRotate_close_fails [OF s fd o this] show ?thesis by (simp add: r)
  next
    assume "oserr w (history w) (SysClose f) = None"
      and "oserr w (history w @ [SysClose f])
           (SysRename (fileName l) (fileName l @ ''.'' @ timeSuffix l)) = Some e"
    then have c: "oserr ?w (history ?w) (SysClose f) = None"
      and "oserr ?w (history ?w @ [SysClose f])
           (SysRename (fileName l) (fileName l @ ''.'' @ timeSuffix l)) = Some e"
      by simp_all
    from doRotate_rename_fails [OF s fd o this] show ?thesis by (simp add: r)
  next
    assume "oserr w (history w) (SysClose f) = None"
      and "oserr w (history w @ [SysClose f])
           (SysRename (fileName l) (fileName l @ ''.'' @ timeSuffix l)) = None"
      and "oserr w (history w @ [SysClose f,
             SysRename (fileName l) (fileName l @ ''.'' @ timeSuffix l)])
           (SysOpenFile (fileName l) [O_CREATE, O_APPEND, O_RDWR] 438) = Some e"
    then have "oserr ?w (history ?w) (SysClose f) = None"
      and "oserr ?w (history ?w @ [SysClose f])
           (SysRename (fileName l) (fileName l @ ''.'' @ timeSuffix l)) = None"
      and "oserr ?w (history ?w @ [SysClose f,
             SysRename (fileName l) (fileName l @ ''.'' @ timeSuffix l)])
           (SysOpenFile (fileName l) [O_CREATE, O_APPEND, O_RDWR] 438) = Some e"
      by simp_all
    from doRotate_open_fails [OF s fd o this] show ?thesis by (simp add: r)
  qed
qed

lemma rotation_failure_exits:
  assumes rot: "shouldRotate l" and r: "Logger_rotate l w = (Some err, l1, w1)"
    and ge: "level l \<le> severity m"
  shows "call lib m format v l w =
       (Inl (Exited 1), l, Output log_std 2 (''log rotate failed.'' @ errorString lib err) w1) \<and>
     lines (written w w1) = [] \<and>
     lines (written w (after (call lib m format v l w))) =
       [(log_std, 2, ''log rotate failed.'' @ errorString lib err)]"
proof -
  have same: "l1 = l" using r by (rule rotate_error_keeps_logger)
  have c: "checkRotate lib l w =
      (Inl (Exited 1), l, Output log_std 2 (''log rotate failed.'' @ errorString lib err) w1)"
    using checkRotate_fail [OF rot r] same by simp
  from ge have "\<not> severity m < level l" by simp
  then have "core lib (rendering m) (severity m) format v l w =
      (Inl (Exited 1), l, Output log_std 2 (''log rotate failed.'' @ errorString lib err) w1)"
    using c by (rule core_aborts)
  then have 1: "call lib m format v l w =
      (Inl (Exited 1), l, Output log_std 2 (''log rotate failed.'' @ errorString lib err) w1)"
    by (rule call_aborts)
  obtain n where h: "history w1 = history w @ take n (rotation_sequence l)"
    using rotate_history [of l w] r by (auto simp: after_def)
  have 2: "lines (written w w1) = []"
    by (simp add: written_def h lines_rotation_sequence)
  have 3: "lines (written w (after (call lib m format v l w))) =
       [(log_std, 2, ''log rotate failed.'' @ errorString lib err)]"
    by (simp add: 1 after_def written_def Output_def h lines_append lines_rotation_sequence)
  from 1 2 3 show ?thesis by blast
qed

lemma core_rotation_failure:
  assumes rot: "shouldRotate l" and r: "Logger_rotate l w = (Some err, l1, w1)"
    and ge: "level l \<le> lvl"
  shows "core lib md lvl format v l w =
       (Inl (Exited 1), l, Output log_std 2 (''log rotate failed.'' @ errorString lib err) w1) \<and>
     lines (written w (after (core lib md lvl format v l w))) =
       [(log_std, 2, ''log rotate failed.'' @ errorString lib err)]"
proof -
  have same: "l1 = l" using r by (rule rotate_error_keeps_logger)
  have c: "checkRotate lib l w =
      (Inl (Exited 1), l, Output log_std 2 (''log rotate failed.'' @ errorString lib err) w1)"
    using checkRotate_fail [OF rot r] same by simp
  from ge have "\<not> lvl < level l" by simp
  then have 1: "core lib md lvl format v l w =
      (Inl (Exited 1), l, Output log_std 2 (''log rotate failed.'' @ errorString lib err) w1)"
    using c by (rule core_aborts)
  obtain n where h: "history w1 = history w @ take n (rotation_sequence l)"
    using rotate_history [of l w] r by (auto simp: after_def)
  have 2: "lines (written w (after (core lib md lvl format v l w))) =
       [(log_std, 2, ''log rotate failed.'' @ errorString lib err)]"
    by (simp add: 1 after_def written_def Output_def h lines_append lines_rotation_sequence)
  from 1 2 show ?thesis by blast
qed

lemma rotation_not_ok:
  assumes "\<not> rotation_ok l w"
  obtains err l1 w1 where "shouldRotate l" and "Logger_rotate l w = (Some err, l1, w1)"
proof -
  from assms have rot: "shouldRotate l" and "fst (Logger_rotate l w) \<noteq> None"
    by (simp_all add: rotation_ok_def)
  then obtain err l1 w1 where "Logger_rotate l w = (Some err, l1, w1)"
    by (cases "Logger_rotate l w") auto
  with rot show ?thesis by (rule that)
qed


lemma rotate_keeps_suffix_on_error:
  "Logger_rotate l w = (Some err, l1, w1) \<Longrightarrow> timeSuffix l1 = timeSuffix l"
  by (drule rotate_error_keeps_logger) simp

lemma first_check_leaves_fresh:
  assumes day: "\<forall>n \<ge> reads w. now w n = d"
    and first: "Logger_rotate l w = (None, l1, w1)"
  shows "now w1 (reads w1) = timeSuffix l1"
proof (cases "now w (reads w) = timeSuffix l")
  case True
  from rotate_fresh [OF True] first
  have "l1 = l" and "w1 = w\<lparr>reads := Suc (reads w)\<rparr>" by simp_all
  moreover from day have "now w (reads w) = d" and "now w (Suc (reads w)) = d" by simp_all
  ultimately show ?thesis using True by simp
next
  case False
  let ?w = "w\<lparr>reads := Suc (reads w)\<rparr>"
  from day have n: "now w (Suc (reads w)) = d" "now w (Suc (Suc (reads w))) = d" by simp_all
  from rotate_stale [OF False] first have d1: "Logger_doRotate l ?w = (None, l1, w1)" by simp
  show ?thesis
  proof (cases rule: doRotate_cases [where w = ?w and l = l])
    case fresh
    from trans [OF d1 [symmetric] fresh(2)]
    have "l1 = l" and "w1 = w\<lparr>reads := Suc (Suc (reads w))\<rparr>" by simp_all
    with fresh(1) n show ?thesis by simp
  next
    case nil
    from trans [OF d1 [symmetric] nil(3)] show ?thesis by simp
  next
    case (closed f)
    from trans [OF d1 [symmetric] closed(4)] show ?thesis by simp
  next
    case (close_fails f e)
    from trans [OF d1 [symmetric] close_fails(5)] show ?thesis by simp
  next
    case (rename_fails f e)
    from trans [OF d1 [symmetric] rename_fails(6)] show ?thesis by simp
  next
    case (open_fails f e)
    from trans [OF d1 [symmetric] open_fails(6)] show ?thesis by simp
  next
    case (rotated f)
    from trans [OF d1 [symmetric] rotated(6)]
    have "timeSuffix l1 = now w (Suc (reads w))" and "reads w1 = Suc (Suc (reads w))"
      and "now w1 = now w"
      by simp_all
    with n show ?thesis by simp
  qed
qed

section \<open>The claims\<close>

text \<open>
  Claim C1, as stated, says a call at or above the minimum always emits its line. On a
  rotating logger whose rename fails, a warn call at minimum info passes the filter,
  the rotation check returns the error, and the call ends in \<^verbatim>\<open>log.Fatal\<close>: the only
  line is the failure message on the standard library's default logger and the process
  exits with status 1. The warn line is never handed to \<^verbatim>\<open>Output\<close>.
\<close>

theorem unemitted_on_rotation_failure_counterexample:
  "Lwarn \<le> Lfatal \<and> level rot0 \<le> Lwarn \<and>
   Logger_log lib0 Lwarn [AString ''x''] rot0 (w_fail\<lparr>reads := 2\<rparr>) =
     (Inl (Exited 1), rot0,
      w_fail\<lparr>reads := 4,
        history := [SysClose 3, SysRename ''test.log'' ''test.log.20240102'',
                    LogOutput log_std 2 ''log rotate failed.<error>''],
        closed := {3}\<rparr>) \<and>
   lines (written (w_fail\<lparr>reads := 2\<rparr>)
      (after (Logger_log lib0 Lwarn [AString ''x''] rot0 (w_fail\<lparr>reads := 2\<rparr>)))) =
     [(log_std, 2, ''log rotate failed.<error>'')]"
  by (simp add: Logger_log_def checkRotate_def log_Fatal_def Output_def Sprint_def printArg_def
      isString_def Logger_rotate_def Logger_doRotate_def Now_def os_Close_def os_Rename_def
      rot0_def w_fail_def w0_def lib0_def Lwarn_def Linfo_def Lfatal_def after_def written_def)

text \<open>
  Claim C1, amended. A logging call with one of the six severities emits its line if
  and only if the severity is at least the logger's minimum, in the order of the level
  numbers (debug < info < warn < error < panic < fatal), and the rotation check, when
  the logger rotates, reports no error. Below the minimum the call returns with the
  logger and the world as they were: nothing is written and no clock is read. At or
  above it with no rotation error, exactly one line goes to the logger's \<^verbatim>\<open>Output\<close>
  with call depth 4. At or above it with a rotation error, the only line is the failure
  message of \<^verbatim>\<open>log.Fatal\<close> and the call ends with exit status 1. This is stated for
  each of \<^verbatim>\<open>log\<close>, \<^verbatim>\<open>logln\<close> and \<^verbatim>\<open>logf\<close> (\<open>core\<close> by mode).
\<close>

theorem level_filter:
  "lvl \<le> Lfatal \<Longrightarrow>
     (lvl < level l \<longrightarrow> core lib md lvl format v l w = (Inr (), l, w)) \<and>
     ((\<exists>lg. (lg, 4, render lib md (levels ! unat lvl) format v)
          \<in> set (lines (written w (after (core lib md lvl format v l w))))) \<longleftrightarrow>
        level l \<le> lvl \<and> rotation_ok l w) \<and>
     (level l \<le> lvl \<and> rotation_ok l w \<longrightarrow>
        (\<exists>l1 w1. checkRotate lib l w = (Inr (), l1, w1) \<and>
           core lib md lvl format v l w =
             (Inr (), l1, Output (logger l1) 4 (render lib md (levels ! unat lvl) format v) w1) \<and>
           lines (written w (after (core lib md lvl format v l w))) =
             [(logger l1, 4, render lib md (levels ! unat lvl) format v)])) \<and>
     (level l \<le> lvl \<and> \<not> rotation_ok l w \<longrightarrow>
        (\<exists>err l1 w1. shouldRotate l \<and> Logger_rotate l w = (Some err, l1, w1) \<and>
           core lib md lvl format v l w =
             (Inl (Exited 1), l,
              Output log_std 2 (''log rotate failed.'' @ errorString lib err) w1) \<and>
           lines (written w (after (core lib md lvl format v l w))) =
             [(log_std, 2, ''log rotate failed.'' @ errorString lib err)]))"
proof -
  assume valid: "lvl \<le> Lfatal"
  let ?line = "render lib md (levels ! unat lvl) format v"
  let ?out = "lines (written w (after (core lib md lvl format v l w)))"
  have below: "core lib md lvl format v l w = (Inr (), l, w)" if "lvl < level l"
    using that by (rule core_filtered)
  have silent: "?out = []" if "lvl < level l"
    by (simp add: below [OF that] after_def written_def)
  have emitted:
    "\<exists>l1 w1. checkRotate lib l w = (Inr (), l1, w1) \<and>
       core lib md lvl format v l w = (Inr (), l1, Output (logger l1) 4 ?line w1) \<and>
       ?out = [(logger l1, 4, ?line)]"
    if ge: "level l \<le> lvl" and ok: "rotation_ok l w"
  proof -
    obtain l1 w1 where c: "checkRotate lib l w = (Inr (), l1, w1)"
      and e: "core lib md lvl format v l w = (Inr (), l1, Output (logger l1) 4 ?line w1)"
      and q: "lines (written w (Output (logger l1) 4 ?line w1)) = [(logger l1, 4, ?line)]"
      using ok ge valid by (rule core_emits)
    then show ?thesis by (simp add: after_def)
  qed
  have failed:
    "\<exists>err l1 w1. shouldRotate l \<and> Logger_rotate l w = (Some err, l1, w1) \<and>
       core lib md lvl format v l w =
         (Inl (Exited 1), l, Output log_std 2 (''log rotate failed.'' @ errorString lib err) w1) \<and>
       ?out = [(log_std, 2, ''log rotate failed.'' @ errorString lib err)]"
    if ge: "level l \<le> lvl" and bad: "\<not> rotation_ok l w"
  proof -
    obtain err l1 w1 where rot: "shouldRotate l" and r: "Logger_rotate l w = (Some err, l1, w1)"
      using bad by (rule rotation_not_ok)
    from core_rotation_failure [OF rot r ge, of lib md format v] rot r
    show ?thesis by blast
  qed
  have out_ok: "?out = [(logger (fst (snd (checkRotate lib l w))), 4, ?line)]"
    if ge: "level l \<le> lvl" and ok: "rotation_ok l w"
  proof -
    obtain l1 w1 where c: "checkRotate lib l w = (Inr (), l1, w1)"
      and e: "core lib md lvl format v l w = (Inr (), l1, Output (logger l1) 4 ?line w1)"
      and q: "lines (written w (Output (logger l1) 4 ?line w1)) = [(logger l1, 4, ?line)]"
      using ok ge valid by (rule core_emits)
    then show ?thesis by (simp add: after_def)
  qed
  have out_bad: "(lg, 4, s) \<notin> set ?out" if ge: "level l \<le> lvl" and bad: "\<not> rotation_ok l w"
    for lg s
  proof -
    obtain err l1 w1 where rot: "shouldRotate l" and r: "Logger_rotate l w = (Some err, l1, w1)"
      using bad by (rule rotation_not_ok)
    from core_rotation_failure [OF rot r ge, of lib md format v]
    have "?out = [(log_std, 2, ''log rotate failed.'' @ errorString lib err)]"
      by (rule conjunct2)
    then show ?thesis by simp
  qed
  have iff: "(\<exists>lg. (lg, 4, ?line) \<in> set ?out) \<longleftrightarrow> level l \<le> lvl \<and> rotation_ok l w"
  proof (cases "lvl < level l")
    case True
    with silent show ?thesis by (simp add: not_le)
  next
    case False
    then have ge: "level l \<le> lvl" by simp
    show ?thesis
    proof (cases "rotation_ok l w")
      case True
      with ge out_ok [OF ge True] show ?thesis by simp
    next
      case False
      with out_bad [OF ge False] show ?thesis by simp
    qed
  qed
  from below iff emitted failed show ?thesis by blast
qed

theorem level_filter_witness:
  "Ldebug \<le> Lfatal \<and> Ldebug < level rot0 \<and>
   core lib0 ModePrint Ldebug [] [AString ''x''] rot0 w0 = (Inr (), rot0, w0) \<and>
   Lwarn \<le> Lfatal \<and> rotation_ok rot0 w0 \<and> level rot0 \<le> Lwarn \<and>
   lines (written w0 (after (core lib0 ModePrint Lwarn [] [AString ''x''] rot0 w0))) =
     [(logger rot0, 4, ''WARN x'')] \<and>
   \<not> rotation_ok rot0 (w_fail\<lparr>reads := 2\<rparr>) \<and>
   fst (core lib0 ModePrint Lwarn [] [AString ''x''] rot0 (w_fail\<lparr>reads := 2\<rparr>)) =
     Inl (Exited 1)"
proof -
  have a: "Ldebug \<le> Lfatal" by (simp add: Ldebug_def Lfatal_def)
  have b: "Ldebug < level rot0" by (simp add: Ldebug_def rot0_def Linfo_def)
  have c: "Lwarn \<le> Lfatal" by (simp add: Lwarn_def Lfatal_def)
  have r: "Logger_rotate rot0 w0 = (None, rot0, w0\<lparr>reads := 1\<rparr>)"
    by (simp add: Logger_rotate_def Now_def rot0_def w0_def)
  have d: "rotation_ok rot0 w0" by (simp add: rotation_ok_def r)
  have e: "level rot0 \<le> Lwarn" by (simp add: Lwarn_def rot0_def Linfo_def)
  have sr: "shouldRotate rot0" by (simp add: rot0_def)
  have k: "checkRotate lib0 rot0 w0 = (Inr (), rot0, w0\<lparr>reads := 1\<rparr>)"
    by (simp add: checkRotate_def r sr)
  have t: "render lib0 ModePrint (levels ! unat Lwarn) [] [AString ''x''] = ''WARN x''"
    by (simp add: render_def levels_def Lwarn_def Sprint_def printArg_def isString_def)
  have f: "fst (Logger_rotate rot0 (w_fail\<lparr>reads := 2\<rparr>)) = Some (SysError ''rename failed'')"
    by (simp add: Logger_rotate_def Logger_doRotate_def Now_def os_Close_def os_Rename_def
        rot0_def w_fail_def w0_def)
  have bad: "\<not> rotation_ok rot0 (w_fail\<lparr>reads := 2\<rparr>)"
    by (simp add: rotation_ok_def sr f)
  from level_filter [OF a, where l = rot0 and lib = lib0 and md = ModePrint and format = "[]"
      and v = "[AString ''x'']" and w = w0] b
  have 1: "core lib0 ModePrint Ldebug [] [AString ''x''] rot0 w0 = (Inr (), rot0, w0)"
    by blast
  from level_filter [OF c, where l = rot0 and lib = lib0 and md = ModePrint and format = "[]"
      and v = "[AString ''x'']" and w = w0] d e
  obtain l1 w1 where "checkRotate lib0 rot0 w0 = (Inr (), l1, w1)"
    and "lines (written w0 (after (core lib0 ModePrint Lwarn [] [AString ''x''] rot0 w0))) =
          [(logger l1, 4, render lib0 ModePrint (levels ! unat Lwarn) [] [AString ''x''])]"
    by blast
  with k t have 2: "lines (written w0 (after (core lib0 ModePrint Lwarn [] [AString ''x''] rot0 w0))) =
     [(logger rot0, 4, ''WARN x'')]"
    by simp
  from level_filter [OF c, where l = rot0 and lib = lib0 and md = ModePrint and format = "[]"
      and v = "[AString ''x'']" and w = "w_fail\<lparr>reads := 2\<rparr>"] bad e
  obtain err l2 w2 where
    "core lib0 ModePrint Lwarn [] [AString ''x''] rot0 (w_fail\<lparr>reads := 2\<rparr>) =
       (Inl (Exited 1), rot0,
        Output log_std 2 (''log rotate failed.'' @ errorString lib0 err) w2)"
    by blast
  then have 3: "fst (core lib0 ModePrint Lwarn [] [AString ''x''] rot0 (w_fail\<lparr>reads := 2\<rparr>)) =
     Inl (Exited 1)"
    by simp
  from a b c d e 1 2 bad 3 show ?thesis by blast
qed

text \<open>
  Claim C8. When the logger's suffix is stale at both clock readings and the close, the
  rename or the open of the rotation fails with an error, the rotation check returns
  that error. And a logging call that passes the level filter on a rotating logger
  whose check returns an error ends in \<^verbatim>\<open>log.Fatal("log rotate failed.", err)\<close>: the
  process exits with status 1, for every one of the sixteen methods. The call's own
  line is never handed to \<^verbatim>\<open>Output\<close>: the only line of the whole call is the failure
  message on the standard library's default logger, the rotation itself writes no line,
  and the logger is left as it was.
\<close>

theorem rotation_failure_is_fatal:
  "(now w (reads w) \<noteq> timeSuffix l \<and> now w (Suc (reads w)) \<noteq> timeSuffix l \<and>
    fd l = Some f \<and> f \<notin> closed w \<and>
    (oserr w (history w) (SysClose f) = Some e \<or>
     oserr w (history w) (SysClose f) = None \<and>
       oserr w (history w @ [SysClose f])
         (SysRename (fileName l) (fileName l @ ''.'' @ timeSuffix l)) = Some e \<or>
     oserr w (history w) (SysClose f) = None \<and>
       oserr w (history w @ [SysClose f])
         (SysRename (fileName l) (fileName l @ ''.'' @ timeSuffix l)) = None \<and>
       oserr w (history w @ [SysClose f,
           SysRename (fileName l) (fileName l @ ''.'' @ timeSuffix l)])
         (SysOpenFile (fileName l) [O_CREATE, O_APPEND, O_RDWR] 438) = Some e) \<longrightarrow>
      fst (Logger_rotate l w) = Some e) \<and>
   (shouldRotate l \<and> Logger_rotate l w = (Some err, l1, w1) \<and> level l \<le> severity m \<longrightarrow>
      call lib m format v l w =
        (Inl (Exited 1), l, Output log_std 2 (''log rotate failed.'' @ errorString lib err) w1) \<and>
      lines (written w w1) = [] \<and>
      lines (written w (after (call lib m format v l w))) =
        [(log_std, 2, ''log rotate failed.'' @ errorString lib err)])"
proof (intro conjI impI)
  assume "now w (reads w) \<noteq> timeSuffix l \<and> now w (Suc (reads w)) \<noteq> timeSuffix l \<and>
    fd l = Some f \<and> f \<notin> closed w \<and>
    (oserr w (history w) (SysClose f) = Some e \<or>
     oserr w (history w) (SysClose f) = None \<and>
       oserr w (history w @ [SysClose f])
         (SysRename (fileName l) (fileName l @ ''.'' @ timeSuffix l)) = Some e \<or>
     oserr w (history w) (SysClose f) = None \<and>
       oserr w (history w @ [SysClose f])
         (SysRename (fileName l) (fileName l @ ''.'' @ timeSuffix l)) = None \<and>
       oserr w (history w @ [SysClose f,
           SysRename (fileName l) (fileName l @ ''.'' @ timeSuffix l)])
         (SysOpenFile (fileName l) [O_CREATE, O_APPEND, O_RDWR] 438) = Some e)"
  then show "fst (Logger_rotate l w) = Some e"
    by (elim conjE) (rule rotate_step_fails)
next
  assume a: "shouldRotate l \<and> Logger_rotate l w = (Some err, l1, w1) \<and> level l \<le> severity m"
  then have rot: "shouldRotate l" and r: "Logger_rotate l w = (Some err, l1, w1)"
    and ge: "level l \<le> severity m"
    by simp_all
  note t = rotation_failure_exits [OF rot r ge, of lib format v]
  from t show "call lib m format v l w =
        (Inl (Exited 1), l, Output log_std 2 (''log rotate failed.'' @ errorString lib err) w1)"
    by (rule conjunct1)
  from t show "lines (written w w1) = []"
    by (rule conjunct2 [THEN conjunct1])
  from t show "lines (written w (after (call lib m format v l w))) =
        [(log_std, 2, ''log rotate failed.'' @ errorString lib err)]"
    by (rule conjunct2 [THEN conjunct2])
qed

theorem rotation_failure_is_fatal_witness:
  "shouldRotate rot0 \<and> level rot0 \<le> severity Info \<and> fd rot0 = Some 3 \<and>
   3 \<notin> closed (w_fail\<lparr>reads := 2\<rparr>) \<and>
   oserr (w_fail\<lparr>reads := 2\<rparr>) [] (SysClose 3) = None \<and>
   oserr (w_fail\<lparr>reads := 2\<rparr>) [SysClose 3] (SysRename ''test.log'' ''test.log.20240102'') =
     Some (SysError ''rename failed'') \<and>
   fst (Logger_rotate rot0 (w_fail\<lparr>reads := 2\<rparr>)) = Some (SysError ''rename failed'') \<and>
   Logger_rotate rot0 (w_fail\<lparr>reads := 2\<rparr>) =
     (Some (SysError ''rename failed''), rot0,
      w_fail\<lparr>reads := 4,
        history := [SysClose 3, SysRename ''test.log'' ''test.log.20240102''],
        closed := {3}\<rparr>) \<and>
   fst (call lib0 Info [] [AString ''log 3''] rot0 (w_fail\<lparr>reads := 2\<rparr>)) = Inl (Exited 1) \<and>
   lines (written (w_fail\<lparr>reads := 2\<rparr>)
            (after (call lib0 Info [] [AString ''log 3''] rot0 (w_fail\<lparr>reads := 2\<rparr>)))) =
     [(log_std, 2, ''log rotate failed.<error>'')]"
proof -
  let ?w = "w_fail\<lparr>reads := 2\<rparr>"
  let ?w1 = "w_fail\<lparr>reads := 4,
        history := [SysClose 3, SysRename ''test.log'' ''test.log.20240102''],
        closed := {3}\<rparr>"
  have a: "shouldRotate rot0" by (simp add: rot0_def)
  have c: "level rot0 \<le> severity Info" by (simp add: rot0_def)
  have f: "fd rot0 = Some 3" by (simp add: rot0_def)
  have o: "3 \<notin> closed ?w" by (simp add: w_fail_def w0_def)
  have s1: "now ?w (reads ?w) \<noteq> timeSuffix rot0" by (simp add: w_fail_def w0_def rot0_def)
  have s2: "now ?w (Suc (reads ?w)) \<noteq> timeSuffix rot0" by (simp add: w_fail_def w0_def rot0_def)
  have e1: "oserr ?w [] (SysClose 3) = None" by (simp add: w_fail_def)
  have e2: "oserr ?w [SysClose 3] (SysRename ''test.log'' ''test.log.20240102'') =
     Some (SysError ''rename failed'')"
    by (simp add: w_fail_def)
  have b: "Logger_rotate rot0 ?w = (Some (SysError ''rename failed''), rot0, ?w1)"
    by (simp add: Logger_rotate_def Logger_doRotate_def Now_def os_Close_def os_Rename_def
        rot0_def w_fail_def w0_def)
  have e: "errorString lib0 (SysError ''rename failed'') = ''<error>''"
    by (simp add: lib0_def)
  note t = rotation_failure_is_fatal [of ?w rot0 3 "SysError ''rename failed''"
      "SysError ''rename failed''" rot0 ?w1 Info lib0 "[]" "[AString ''log 3'']"]
  have e1': "oserr ?w (history ?w) (SysClose 3) = None" by (simp add: w_fail_def)
  have e2': "oserr ?w (history ?w @ [SysClose 3])
      (SysRename (fileName rot0) (fileName rot0 @ ''.'' @ timeSuffix rot0)) =
     Some (SysError ''rename failed'')"
    by (simp add: w_fail_def)
  have 0: "fst (Logger_rotate rot0 ?w) = Some (SysError ''rename failed'')"
    using t [THEN conjunct1] s1 s2 f o e1' e2' by blast
  note u = t [THEN conjunct2, rule_format, OF conjI [OF a conjI [OF b c]]]
  have 1: "fst (call lib0 Info [] [AString ''log 3''] rot0 ?w) = Inl (Exited 1)"
    by (simp add: u [THEN conjunct1])
  have 2: "lines (written ?w (after (call lib0 Info [] [AString ''log 3''] rot0 ?w))) =
     [(log_std, 2, ''log rotate failed.<error>'')]"
    using u [THEN conjunct2, THEN conjunct2] by (simp add: e)
  show ?thesis
    by (intro conjI) (rule a, rule c, rule f, rule o, rule e1, rule e2, rule 0, rule b, rule 1, rule 2)
qed

text \<open>
  Claim C4, as stated, says a fatal call writes its line and then ends the process. On
  a rotating logger whose rename fails, \<^verbatim>\<open>Fatal("bye")\<close> passes the filter, the rotation
  check returns the error, and the process exits with status 1 from \<^verbatim>\<open>log.Fatal\<close>: the
  FATAL line is never handed to \<^verbatim>\<open>Output\<close>.
\<close>

theorem fatal_unwritten_counterexample:
  "level rot0 \<le> Lfatal \<and>
   fst (Logger_Fatal lib0 [AString ''bye''] rot0 (w_fail\<lparr>reads := 2\<rparr>)) = Inl (Exited 1) \<and>
   lines (written (w_fail\<lparr>reads := 2\<rparr>)
      (after (Logger_Fatal lib0 [AString ''bye''] rot0 (w_fail\<lparr>reads := 2\<rparr>)))) =
     [(log_std, 2, ''log rotate failed.<error>'')]"
  by (simp add: Logger_Fatal_def andThen_def Logger_log_def checkRotate_def log_Fatal_def
      Output_def Sprint_def printArg_def isString_def Logger_rotate_def Logger_doRotate_def
      Now_def os_Close_def os_Rename_def rot0_def w_fail_def w0_def lib0_def Linfo_def
      Lfatal_def after_def written_def)

text \<open>
  Claim C4, amended. Whatever minimum among the six levels the logger is configured
  with, a fatal call (\<^verbatim>\<open>Fatal\<close>, \<^verbatim>\<open>Fatalf\<close>, \<^verbatim>\<open>Fatalln\<close>) is never below it, because
  \<^verbatim>\<open>Lfatal\<close> is the largest of them, and the call always ends the process with a
  status that is not zero. When the rotation check, if any, reports no error, the line
  with the tag FATAL is handed to \<^verbatim>\<open>Output\<close> and the process then exits with
  \<^verbatim>\<open>os.Exit(-1)\<close>. When the check returns an error, the only line is the failure
  message of \<^verbatim>\<open>log.Fatal\<close> and the process exits with status 1.
\<close>

theorem fatal_never_filtered:
  "level l \<le> Lfatal \<Longrightarrow> m = Fatal \<or> m = Fatalf \<or> m = Fatalln \<Longrightarrow>
     \<not> severity m < level l \<and>
     (\<exists>c. c \<noteq> 0 \<and> fst (call lib m format v l w) = Inl (Exited c)) \<and>
     (rotation_ok l w \<longrightarrow>
        (\<exists>l1 w1. checkRotate lib l w = (Inr (), l1, w1) \<and>
           call lib m format v l w =
             (Inl (Exited (- 1)), l1,
              Output (logger l1) 4 (render lib (rendering m) ''FATAL'' format v) w1) \<and>
           lines (written w (after (call lib m format v l w))) =
             [(logger l1, 4, render lib (rendering m) ''FATAL'' format v)])) \<and>
     (\<not> rotation_ok l w \<longrightarrow>
        (\<exists>err l1 w1. shouldRotate l \<and> Logger_rotate l w = (Some err, l1, w1) \<and>
           call lib m format v l w =
             (Inl (Exited 1), l,
              Output log_std 2 (''log rotate failed.'' @ errorString lib err) w1) \<and>
           lines (written w (after (call lib m format v l w))) =
             [(log_std, 2, ''log rotate failed.'' @ errorString lib err)]))"
proof -
  assume ge: "level l \<le> Lfatal" and m: "m = Fatal \<or> m = Fatalf \<or> m = Fatalln"
  from m have sev: "severity m = Lfatal" by auto
  note c = call_Fatal [OF m, of lib format v l w]
  have 1: "\<not> severity m < level l" using ge sev by simp
  have written:
    "\<exists>l1 w1. checkRotate lib l w = (Inr (), l1, w1) \<and>
       call lib m format v l w =
         (Inl (Exited (- 1)), l1,
          Output (logger l1) 4 (render lib (rendering m) ''FATAL'' format v) w1) \<and>
       lines (written w (after (call lib m format v l w))) =
         [(logger l1, 4, render lib (rendering m) ''FATAL'' format v)]"
    if ok: "rotation_ok l w"
  proof -
    obtain l1 w1 where k: "checkRotate lib l w = (Inr (), l1, w1)"
      and e: "core lib (rendering m) Lfatal format v l w =
           (Inr (), l1,
            Output (logger l1) 4 (render lib (rendering m) (levels ! unat Lfatal) format v) w1)"
      and q: "lines (written w
            (Output (logger l1) 4 (render lib (rendering m) (levels ! unat Lfatal) format v) w1)) =
           [(logger l1, 4, render lib (rendering m) (levels ! unat Lfatal) format v)]"
      using ok ge by (rule core_emits) simp
    have "call lib m format v l w =
         (Inl (Exited (- 1)), l1,
          Output (logger l1) 4 (render lib (rendering m) ''FATAL'' format v) w1)"
      by (simp add: c e andThen_Inr levels_Fatal)
    with k q show ?thesis by (simp add: after_def levels_Fatal)
  qed
  have failed:
    "\<exists>err l1 w1. shouldRotate l \<and> Logger_rotate l w = (Some err, l1, w1) \<and>
       call lib m format v l w =
         (Inl (Exited 1), l, Output log_std 2 (''log rotate failed.'' @ errorString lib err) w1) \<and>
       lines (written w (after (call lib m format v l w))) =
         [(log_std, 2, ''log rotate failed.'' @ errorString lib err)]"
    if bad: "\<not> rotation_ok l w"
  proof -
    obtain err l1 w1 where rot: "shouldRotate l" and r: "Logger_rotate l w = (Some err, l1, w1)"
      using bad by (rule rotation_not_ok)
    from ge sev have "level l \<le> severity m" by simp
    note t = rotation_failure_exits [OF rot r this, of lib format v]
    from t have "call lib m format v l w =
         (Inl (Exited 1), l, Output log_std 2 (''log rotate failed.'' @ errorString lib err) w1)"
      by (rule conjunct1)
    moreover from t have "lines (written w (after (call lib m format v l w))) =
         [(log_std, 2, ''log rotate failed.'' @ errorString lib err)]"
      by (rule conjunct2 [THEN conjunct2])
    ultimately show ?thesis using rot r by blast
  qed
  have 2: "\<exists>c. c \<noteq> 0 \<and> fst (call lib m format v l w) = Inl (Exited c)"
  proof (cases "rotation_ok l w")
    case True
    from written [OF True] have "fst (call lib m format v l w) = Inl (Exited (- 1))" by auto
    then show ?thesis by simp
  next
    case False
    from failed [OF False] have "fst (call lib m format v l w) = Inl (Exited 1)" by auto
    then show ?thesis by simp
  qed
  from 1 2 written failed show ?thesis by blast
qed

theorem fatal_never_filtered_witness:
  "level (Std\<lparr>level := Lfatal\<rparr>) \<le> Lfatal \<and> rotation_ok (Std\<lparr>level := Lfatal\<rparr>) w0 \<and>
   fst (call lib0 Fatal [] [AString ''bye''] (Std\<lparr>level := Lfatal\<rparr>) w0) = Inl (Exited (- 1)) \<and>
   lines (written w0 (after (call lib0 Fatal [] [AString ''bye''] (Std\<lparr>level := Lfatal\<rparr>) w0))) =
     [(logger Std, 4, ''FATAL bye'')] \<and>
   level rot0 \<le> Lfatal \<and> \<not> rotation_ok rot0 (w_fail\<lparr>reads := 2\<rparr>) \<and>
   fst (call lib0 Fatalln [] [AString ''bye''] rot0 (w_fail\<lparr>reads := 2\<rparr>)) = Inl (Exited 1)"
proof -
  let ?l = "Std\<lparr>level := Lfatal\<rparr>"
  have a: "level ?l \<le> Lfatal" by simp
  have b: "Fatal = Fatal \<or> Fatal = Fatalf \<or> Fatal = Fatalln" by simp
  have b2: "Fatalln = Fatal \<or> Fatalln = Fatalf \<or> Fatalln = Fatalln" by simp
  have ok: "rotation_ok ?l w0" by (simp add: rotation_ok_def Std_def New_def)
  have k: "checkRotate lib0 ?l w0 = (Inr (), ?l, w0)"
    by (simp add: checkRotate_def Std_def New_def)
  have t: "render lib0 (rendering Fatal) ''FATAL'' [] [AString ''bye''] = ''FATAL bye''"
    by (simp add: render_def Sprint_def printArg_def isString_def)
  have a2: "level rot0 \<le> Lfatal" by (simp add: rot0_def Linfo_def Lfatal_def)
  have sr: "shouldRotate rot0" by (simp add: rot0_def)
  have f: "fst (Logger_rotate rot0 (w_fail\<lparr>reads := 2\<rparr>)) = Some (SysError ''rename failed'')"
    by (simp add: Logger_rotate_def Logger_doRotate_def Now_def os_Close_def os_Rename_def
        rot0_def w_fail_def w0_def)
  have bad: "\<not> rotation_ok rot0 (w_fail\<lparr>reads := 2\<rparr>)"
    by (simp add: rotation_ok_def sr f)
  from fatal_never_filtered [OF a b, of lib0 "[]" "[AString ''bye'']" w0] ok
  obtain l1 w1 where "checkRotate lib0 ?l w0 = (Inr (), l1, w1)"
    and "call lib0 Fatal [] [AString ''bye''] ?l w0 =
           (Inl (Exited (- 1)), l1,
            Output (logger l1) 4 (render lib0 (rendering Fatal) ''FATAL'' [] [AString ''bye'']) w1)"
    and "lines (written w0 (after (call lib0 Fatal [] [AString ''bye''] ?l w0))) =
           [(logger l1, 4, render lib0 (rendering Fatal) ''FATAL'' [] [AString ''bye''])]"
    by blast
  with k t have 1: "fst (call lib0 Fatal [] [AString ''bye''] ?l w0) = Inl (Exited (- 1))"
    and 2: "lines (written w0 (after (call lib0 Fatal [] [AString ''bye''] ?l w0))) =
           [(logger Std, 4, ''FATAL bye'')]"
    by simp_all
  from fatal_never_filtered [OF a2 b2, of lib0 "[]" "[AString ''bye'']" "w_fail\<lparr>reads := 2\<rparr>"] bad
  obtain err w2 where
    "call lib0 Fatalln [] [AString ''bye''] rot0 (w_fail\<lparr>reads := 2\<rparr>) =
       (Inl (Exited 1), rot0, Output log_std 2 (''log rotate failed.'' @ errorString lib0 err) w2)"
    by blast
  then have 3: "fst (call lib0 Fatalln [] [AString ''bye''] rot0 (w_fail\<lparr>reads := 2\<rparr>)) =
      Inl (Exited 1)"
    by simp
  from a ok 1 2 a2 bad 3 show ?thesis by blast
qed

text \<open>
  Claim C5, as stated, says a panic call writes its line and then raises for every
  configured minimum. With the minimum set to fatal the line is filtered out and the
  call raises all the same: nothing is written.
\<close>

theorem panic_unwritten_counterexample:
  "level (Std\<lparr>level := Lfatal\<rparr>) \<le> Lfatal \<and>
   Logger_Panic lib0 [AString ''x''] (Std\<lparr>level := Lfatal\<rparr>) w0 =
     (Inl (Panicked ''x''), Std\<lparr>level := Lfatal\<rparr>, w0) \<and>
   written w0 (after (Logger_Panic lib0 [AString ''x''] (Std\<lparr>level := Lfatal\<rparr>) w0)) = []"
  by (simp add: Logger_Panic_def Logger_log_def andThen_def Lpanic_def Lfatal_def Sprint_def
      printArg_def after_def written_def)

text \<open>
  Claim C5, amended. A panic call (\<^verbatim>\<open>Panic\<close>, \<^verbatim>\<open>Panicf\<close>) that is filtered out or
  whose rotation check reports no error raises \<^verbatim>\<open>panic\<close> with the formatted operands
  as payload (\<^verbatim>\<open>fmt.Sprint(v...)\<close> or \<^verbatim>\<open>fmt.Sprintf(format, v...)\<close>, without the tag).
  When the minimum is at most panic, the line PANIC, a space and the payload is handed
  to \<^verbatim>\<open>Output\<close> before the raise; when the minimum is above panic, the call leaves
  the logger and the world as they were and still raises.
\<close>

theorem panic_raises:
  "m = Panic \<or> m = Panicf \<Longrightarrow> rotation_ok l w \<or> Lpanic < level l \<Longrightarrow>
     fst (call lib m format v l w) =
       Inl (Panicked (if m = Panic then Sprint lib v else Sprintf lib format v)) \<and>
     (Lpanic < level l \<longrightarrow>
        call lib m format v l w =
          (Inl (Panicked (if m = Panic then Sprint lib v else Sprintf lib format v)), l, w)) \<and>
     (level l \<le> Lpanic \<longrightarrow>
        (\<exists>l1 w1. checkRotate lib l w = (Inr (), l1, w1) \<and>
           lines (written w (after (call lib m format v l w))) =
             [(logger l1, 4,
               ''PANIC '' @ (if m = Panic then Sprint lib v else Sprintf lib format v))]))"
proof -
  assume m: "m = Panic \<or> m = Panicf" and pre: "rotation_ok l w \<or> Lpanic < level l"
  let ?p = "if m = Panic then Sprint lib v else Sprintf lib format v"
  note c = call_Panic [OF m, of lib format v l w]
  have r: "render lib (rendering m) ''PANIC'' format v = ''PANIC '' @ ?p"
    using m by (auto simp: render_Print render_Printf)
  have filtered: "call lib m format v l w = (Inl (Panicked ?p), l, w)" if "Lpanic < level l"
    using that by (simp add: c core_filtered andThen_Inr)
  have emitted:
    "\<exists>l1 w1. checkRotate lib l w = (Inr (), l1, w1) \<and>
       call lib m format v l w =
         (Inl (Panicked ?p), l1, Output (logger l1) 4 (''PANIC '' @ ?p) w1) \<and>
       lines (written w (after (call lib m format v l w))) = [(logger l1, 4, ''PANIC '' @ ?p)]"
    if ge: "level l \<le> Lpanic"
  proof -
    from ge pre have ok: "rotation_ok l w" by auto
    have valid: "Lpanic \<le> Lfatal" by (simp add: Lpanic_def Lfatal_def)
    obtain l1 w1 where k: "checkRotate lib l w = (Inr (), l1, w1)"
      and e: "core lib (rendering m) Lpanic format v l w =
           (Inr (), l1,
            Output (logger l1) 4 (render lib (rendering m) (levels ! unat Lpanic) format v) w1)"
      and q: "lines (written w
            (Output (logger l1) 4 (render lib (rendering m) (levels ! unat Lpanic) format v) w1)) =
           [(logger l1, 4, render lib (rendering m) (levels ! unat Lpanic) format v)]"
      using ok ge valid by (rule core_emits)
    have "call lib m format v l w =
         (Inl (Panicked ?p), l1, Output (logger l1) 4 (''PANIC '' @ ?p) w1)"
      using e by (simp only: c andThen_Inr levels_Panic r)
    moreover from q have "lines (written w (Output (logger l1) 4 (''PANIC '' @ ?p) w1)) =
        [(logger l1, 4, ''PANIC '' @ ?p)]"
      by (simp only: levels_Panic r)
    ultimately show ?thesis using k by (simp add: after_def)
  qed
  have 1: "fst (call lib m format v l w) = Inl (Panicked ?p)"
  proof (cases "Lpanic < level l")
    case True
    then show ?thesis by (simp add: filtered)
  next
    case False
    then have "level l \<le> Lpanic" by simp
    from emitted [OF this] show ?thesis by auto
  qed
  from 1 filtered emitted show ?thesis by blast
qed

theorem panic_raises_witness:
  "rotation_ok Std w0 \<and> level Std \<le> Lpanic \<and>
   fst (call lib0 Panicf ''code %v'' [AOther 7] Std w0) = Inl (Panicked ''code <value>'') \<and>
   lines (written w0 (after (call lib0 Panicf ''code %v'' [AOther 7] Std w0))) =
     [(logger Std, 4, ''PANIC code <value>'')] \<and>
   Lpanic < level (Std\<lparr>level := Lfatal\<rparr>) \<and>
   call lib0 Panic [] [AString ''x''] (Std\<lparr>level := Lfatal\<rparr>) w0 =
     (Inl (Panicked ''x''), Std\<lparr>level := Lfatal\<rparr>, w0)"
proof -
  have m1: "Panicf = Panic \<or> Panicf = Panicf" and m2: "Panic = Panic \<or> Panic = Panicf"
    by simp_all
  have ok: "rotation_ok Std w0" by (simp add: rotation_ok_def Std_def New_def)
  have le: "level Std \<le> Lpanic" by (simp add: Std_def New_def Ldebug_def)
  have gt: "Lpanic < level (Std\<lparr>level := Lfatal\<rparr>)" by (simp add: Lpanic_def Lfatal_def)
  have k: "checkRotate lib0 Std w0 = (Inr (), Std, w0)"
    by (simp add: checkRotate_def Std_def New_def)
  have s1: "Sprintf lib0 ''code %v'' [AOther 7] = ''code <value>''"
    by (simp add: Sprintf_def printArg_def lib0_def)
  have s2: "Sprint lib0 [AString ''x''] = ''x''"
    by (simp add: Sprint_def printArg_def)
  note t1 = panic_raises [OF m1, of Std w0 lib0 "''code %v''" "[AOther 7]"]
  note t2 = panic_raises [OF m2, of "Std\<lparr>level := Lfatal\<rparr>" w0 lib0 "[]" "[AString ''x'']"]
  from t1 ok have 1: "fst (call lib0 Panicf ''code %v'' [AOther 7] Std w0) =
      Inl (Panicked ''code <value>'')"
    by (simp add: s1)
  from t1 ok le obtain l1 w1 where "checkRotate lib0 Std w0 = (Inr (), l1, w1)"
    and "lines (written w0 (after (call lib0 Panicf ''code %v'' [AOther 7] Std w0))) =
      [(logger l1, 4, ''PANIC '' @ (if Panicf = Panic then Sprint lib0 [AOther 7]
          else Sprintf lib0 ''code %v'' [AOther 7]))]"
    by blast
  with k have 2: "lines (written w0 (after (call lib0 Panicf ''code %v'' [AOther 7] Std w0))) =
     [(logger Std, 4, ''PANIC code <value>'')]"
    by (simp add: s1)
  from t2 gt have 3: "call lib0 Panic [] [AString ''x''] (Std\<lparr>level := Lfatal\<rparr>) w0 =
     (Inl (Panicked ''x''), Std\<lparr>level := Lfatal\<rparr>, w0)"
    by (simp add: s2)
  from ok le 1 2 gt 3 show ?thesis by blast
qed



text \<open>
  Claim C3. When the suffix read from the clock equals the logger's, the rotation check
  returns no error and leaves the logger and the world as they were but for the clock
  reading: no file operation; and so does \<^verbatim>\<open>doRotate\<close> itself by its locked
  double-check, also when the unlocked test saw a stale suffix and the locked reading
  equals the logger's. Two checks in a row while the clock reads the same day \<open>d\<close>
  make, together, at most one sequence close, rename, open (a prefix of it when a step
  fails). After a first check that returned no error, the second one changes nothing
  but the clock reading, and a \<^verbatim>\<open>doRotate\<close> entered then (by a caller that passed the
  unlocked test earlier) is stopped by the double-check and changes nothing either.
\<close>

theorem rotation_check_idempotent:
  "(now w (reads w) = timeSuffix l \<longrightarrow>
      Logger_rotate l w = (None, l, w\<lparr>reads := Suc (reads w)\<rparr>) \<and>
      Logger_doRotate l w = (None, l, w\<lparr>reads := Suc (reads w)\<rparr>)) \<and>
   (now w (reads w) \<noteq> timeSuffix l \<and> now w (Suc (reads w)) = timeSuffix l \<longrightarrow>
      Logger_rotate l w = (None, l, w\<lparr>reads := Suc (Suc (reads w))\<rparr>)) \<and>
   ((\<forall>n \<ge> reads w. now w n = d) \<and> Logger_rotate l w = (r1, l1, w1) \<and>
    Logger_rotate l1 w1 = (r2, l2, w2) \<longrightarrow>
      (\<exists>n. written w w2 = take n (rotation_sequence l)) \<and>
      (r1 = None \<longrightarrow>
         r2 = None \<and> l2 = l1 \<and> w2 = w1\<lparr>reads := Suc (reads w1)\<rparr> \<and>
         Logger_doRotate l1 w1 = (None, l1, w1\<lparr>reads := Suc (reads w1)\<rparr>)))"
proof (intro conjI impI)
  assume "now w (reads w) = timeSuffix l"
  then show "Logger_rotate l w = (None, l, w\<lparr>reads := Suc (reads w)\<rparr>)"
    and "Logger_doRotate l w = (None, l, w\<lparr>reads := Suc (reads w)\<rparr>)"
    by (rule rotate_fresh, rule doRotate_fresh)
next
  assume "now w (reads w) \<noteq> timeSuffix l \<and> now w (Suc (reads w)) = timeSuffix l"
  then have stale: "now w (reads w) \<noteq> timeSuffix l"
    and fresh: "now (w\<lparr>reads := Suc (reads w)\<rparr>) (reads (w\<lparr>reads := Suc (reads w)\<rparr>)) =
      timeSuffix l"
    by simp_all
  from doRotate_fresh [OF fresh]
  show "Logger_rotate l w = (None, l, w\<lparr>reads := Suc (Suc (reads w))\<rparr>)"
    by (simp add: rotate_stale [OF stale])
next
  assume a: "(\<forall>n \<ge> reads w. now w n = d) \<and> Logger_rotate l w = (r1, l1, w1) \<and>
    Logger_rotate l1 w1 = (r2, l2, w2)"
  then have day: "\<forall>n \<ge> reads w. now w n = d"
    and first: "Logger_rotate l w = (r1, l1, w1)"
    and second: "Logger_rotate l1 w1 = (r2, l2, w2)"
    by simp_all
  note t = two_checks_same_day [OF day first second]
  from t show "\<exists>n. written w w2 = take n (rotation_sequence l)" by (rule conjunct1)
  assume ok: "r1 = None"
  with t show "r2 = None" and "l2 = l1" and "w2 = w1\<lparr>reads := Suc (reads w1)\<rparr>"
    by simp_all
  from first ok have "Logger_rotate l w = (None, l1, w1)" by simp
  with day have "now w1 (reads w1) = timeSuffix l1" by (rule first_check_leaves_fresh)
  then show "Logger_doRotate l1 w1 = (None, l1, w1\<lparr>reads := Suc (reads w1)\<rparr>)"
    by (rule doRotate_fresh)
qed

theorem rotation_check_idempotent_witness:
  "now w0 (reads w0) = timeSuffix rot0 \<and>
   Logger_rotate rot0 w0 = (None, rot0, w0\<lparr>reads := Suc (reads w0)\<rparr>) \<and>
   Logger_rotate rot0 (w0\<lparr>reads := 2\<rparr>) =
     (None,
      rot0\<lparr>logger := SetOutput (logger rot0) (FileWriter 4), fd := Some 4,
           timeSuffix := ''20240103''\<rparr>,
      w0\<lparr>reads := 4, history := rotation_sequence rot0, allocated := 5, closed := {3}\<rparr>) \<and>
   Logger_rotate
     (rot0\<lparr>logger := SetOutput (logger rot0) (FileWriter 4), fd := Some 4,
           timeSuffix := ''20240103''\<rparr>)
     (w0\<lparr>reads := 4, history := rotation_sequence rot0, allocated := 5, closed := {3}\<rparr>) =
     (None,
      rot0\<lparr>logger := SetOutput (logger rot0) (FileWriter 4), fd := Some 4,
           timeSuffix := ''20240103''\<rparr>,
      w0\<lparr>reads := 5, history := rotation_sequence rot0, allocated := 5, closed := {3}\<rparr>) \<and>
   Logger_doRotate
     (rot0\<lparr>logger := SetOutput (logger rot0) (FileWriter 4), fd := Some 4,
           timeSuffix := ''20240103''\<rparr>)
     (w0\<lparr>reads := 4, history := rotation_sequence rot0, allocated := 5, closed := {3}\<rparr>) =
     (None,
      rot0\<lparr>logger := SetOutput (logger rot0) (FileWriter 4), fd := Some 4,
           timeSuffix := ''20240103''\<rparr>,
      w0\<lparr>reads := 5, history := rotation_sequence rot0, allocated := 5, closed := {3}\<rparr>)"
proof -
  let ?w = "w0\<lparr>reads := 2\<rparr>"
  let ?l1 = "rot0\<lparr>logger := SetOutput (logger rot0) (FileWriter 4), fd := Some 4,
           timeSuffix := ''20240103''\<rparr>"
  let ?w1 = "w0\<lparr>reads := 4, history := rotation_sequence rot0, allocated := 5, closed := {3}\<rparr>"
  let ?w2 = "w0\<lparr>reads := 5, history := rotation_sequence rot0, allocated := 5, closed := {3}\<rparr>"
  have a: "now w0 (reads w0) = timeSuffix rot0" by (simp add: w0_def rot0_def)
  have day: "\<forall>n \<ge> reads ?w. now ?w n = ''20240103''" by (simp add: w0_def)
  have first: "Logger_rotate rot0 ?w = (None, ?l1, ?w1)"
    by (simp add: Logger_rotate_def Logger_doRotate_def Now_def os_Close_def os_Rename_def
        os_OpenFile_def rotation_sequence_def rot0_def w0_def)
  obtain r2 l2 w2 where second: "Logger_rotate ?l1 ?w1 = (r2, l2, w2)"
    by (cases "Logger_rotate ?l1 ?w1") auto
  note t = rotation_check_idempotent [of w0 rot0 "''20240103''" r2 l2 w2 r2 l2 w2]
  note u = rotation_check_idempotent [of ?w rot0 "''20240103''" None ?l1 ?w1 r2 l2 w2]
  from t [THEN conjunct1, THEN mp, OF a]
  have 1: "Logger_rotate rot0 w0 = (None, rot0, w0\<lparr>reads := Suc (reads w0)\<rparr>)"
    by (rule conjunct1)
  note v = u [THEN conjunct2, THEN conjunct2, THEN mp, OF conjI [OF day conjI [OF first second]],
      THEN conjunct2, THEN mp, OF refl]
  from v have "r2 = None" and "l2 = ?l1" and "w2 = ?w1\<lparr>reads := Suc (reads ?w1)\<rparr>"
    by simp_all
  with second have 2: "Logger_rotate ?l1 ?w1 = (None, ?l1, ?w2)" by simp
  from v have "Logger_doRotate ?l1 ?w1 = (None, ?l1, ?w1\<lparr>reads := Suc (reads ?w1)\<rparr>)"
    by simp
  then have 3: "Logger_doRotate ?l1 ?w1 = (None, ?l1, ?w2)" by simp
  show ?thesis
    by (intro conjI) (rule a, rule 1, rule first, rule 2, rule 3)
qed

text \<open>
  Claim C6. \<^verbatim>\<open>ParseLevel\<close> returns a level \<open>L\<close> of the six with a nil error exactly
  when the lower-cased input is the lower-cased tag of \<open>L\<close> in the table \<open>levels\<close>;
  when the lower-cased input is none of the six, it returns the zero level with the
  error made by \<^verbatim>\<open>fmt.Errorf("invalid log Level: %q", lvl)\<close>, whose operand is the input
  as given. Lower-casing is \<^verbatim>\<open>strings.ToLower\<close>: on an input of ASCII bytes it maps
  each of A..Z to a..z and keeps every other byte, so case is the only thing ignored.
\<close>

theorem ParseLevel_case_insensitive:
  "(\<forall>L. L \<le> Lfatal \<longrightarrow>
      (ParseLevel lib s = (L, None) \<longleftrightarrow> ToLower lib s = map lowerByte (levels ! unat L))) \<and>
   ((\<forall>L. L \<le> Lfatal \<longrightarrow> ToLower lib s \<noteq> map lowerByte (levels ! unat L)) \<longrightarrow>
      ParseLevel lib s = (Ldebug, Some (fmt_Errorf ''invalid log Level: %q'' s))) \<and>
   (isASCII s \<longrightarrow> ToLower lib s = map lowerByte s)"
proof (intro conjI allI impI)
  fix L :: Level
  assume "L \<le> Lfatal"
  then have "L = Ldebug \<or> L = Linfo \<or> L = Lwarn \<or> L = Lerror \<or> L = Lpanic \<or> L = Lfatal"
    by (rule level_cases)
  then show "ParseLevel lib s = (L, None) \<longleftrightarrow> ToLower lib s = map lowerByte (levels ! unat L)"
    by (elim disjE) (simp_all only: ParseLevel_tokens lower_tags)
next
  assume none: "\<forall>L. L \<le> Lfatal \<longrightarrow> ToLower lib s \<noteq> map lowerByte (levels ! unat L)"
  have le: "Ldebug \<le> Lfatal" "Linfo \<le> Lfatal" "Lwarn \<le> Lfatal" "Lerror \<le> Lfatal"
    "Lpanic \<le> Lfatal" "Lfatal \<le> Lfatal"
    by (simp_all add: Ldebug_def Linfo_def Lwarn_def Lerror_def Lpanic_def Lfatal_def)
  from none le have "ToLower lib s \<noteq> ''debug''" "ToLower lib s \<noteq> ''info''"
    "ToLower lib s \<noteq> ''warn''" "ToLower lib s \<noteq> ''error''" "ToLower lib s \<noteq> ''panic''"
    "ToLower lib s \<noteq> ''fatal''"
    by (metis lower_tags(1), metis lower_tags(2), metis lower_tags(3), metis lower_tags(4),
        metis lower_tags(5), metis lower_tags(6))
  then show "ParseLevel lib s = (Ldebug, Some (fmt_Errorf ''invalid log Level: %q'' s))"
    by (rule ParseLevel_other)
next
  assume "isASCII s"
  then show "ToLower lib s = map lowerByte s" by (rule ToLower_ASCII)
qed

theorem ParseLevel_case_insensitive_witness:
  "Lwarn \<le> Lfatal \<and> isASCII ''WaRn'' \<and> map lowerByte ''WaRn'' = map lowerByte (levels ! unat Lwarn) \<and>
   ParseLevel lib0 ''WaRn'' = (Lwarn, None) \<and>
   ParseLevel lib0 ''warning'' = (Ldebug, Some (fmt_Errorf ''invalid log Level: %q'' ''warning''))"
proof -
  have le: "Lwarn \<le> Lfatal" by (simp add: Lwarn_def Lfatal_def)
  have a: "isASCII ''WaRn''" by (simp add: isASCII_def)
  have b: "map lowerByte ''WaRn'' = map lowerByte (levels ! unat Lwarn)"
    by (simp add: lower_tags lowerByte_def isUpper_def char_of_def bit_0)
  note t = ParseLevel_case_insensitive [of lib0 "''WaRn''"]
  from t a have "ToLower lib0 ''WaRn'' = map lowerByte ''WaRn''" by blast
  with b have "ToLower lib0 ''WaRn'' = map lowerByte (levels ! unat Lwarn)" by simp
  with t le have 1: "ParseLevel lib0 ''WaRn'' = (Lwarn, None)" by blast
  note u = ParseLevel_case_insensitive [of lib0 "''warning''"]
  have w: "ToLower lib0 ''warning'' = ''warning''"
    by (simp add: ToLower_def isASCII_def isUpper_def)
  have "ToLower lib0 ''warning'' \<noteq> map lowerByte (levels ! unat L)" if "L \<le> Lfatal" for L
    using level_cases [OF that] by (elim disjE) (simp_all add: w lower_tags)
  with u have 2: "ParseLevel lib0 ''warning'' =
      (Ldebug, Some (fmt_Errorf ''invalid log Level: %q'' ''warning''))"
    by blast
  from le a b 1 2 show ?thesis by blast
qed

text \<open>
  Claim C7 holds for \<^verbatim>\<open>log\<close> and \<^verbatim>\<open>logf\<close> and fails for \<^verbatim>\<open>logln\<close> (lemmas
  \<open>render_Print\<close>, \<open>render_Printf\<close>, \<open>render_Println\<close>): \<^verbatim>\<open>logln\<close> passes the tag and a
  space as the first operand of \<^verbatim>\<open>fmt.Sprintln\<close>, which puts a space of its own before
  the next operand. On the default logger, \<^verbatim>\<open>Println("foo")\<close> hands INFO, two spaces,
  foo and a newline to \<^verbatim>\<open>Output\<close>, where the formatted operands are foo and a
  newline; \<^verbatim>\<open>Print("foo")\<close> and \<^verbatim>\<open>Infof("Info: %s", "foo")\<close> hand over the tag, one
  space and the formatted operands.
\<close>

theorem Println_two_spaces:
  "lines (written w0 (after (Logger_Println lib0 [AString ''foo''] Std w0))) =
     [(logger Std, 4, ''INFO  foo'' @ [CHR 0x0A])] \<and>
   Sprintln lib0 [AString ''foo''] = ''foo'' @ [CHR 0x0A] \<and>
   lines (written w0 (after (Logger_Print lib0 [AString ''foo''] Std w0))) =
     [(logger Std, 4, ''INFO foo'')] \<and>
   lines (written w0 (after (Logger_Infof lib0 ''Info: %s'' [AString ''foo''] Std w0))) =
     [(logger Std, 4, ''INFO Info: foo'')]"
  by (simp add: Logger_Println_def Logger_logln_def Logger_Print_def Logger_log_def
      Logger_Infof_def Logger_logf_def checkRotate_def levels_at_def levels_def Linfo_def
      Std_def New_def Ldebug_def Output_def Sprintln_def Sprint_def Sprintf_def printArg_def
      isString_def after_def written_def w0_def)

text \<open>
  Claim C9, as stated, counts one method per severity and rendering mode, eighteen, and
  two \<^verbatim>\<open>Print*\<close> aliases. The type \<^verbatim>\<open>*Logger\<close> has sixteen exported methods: thirteen
  named after a severity, with no newline-mode method for error (nor for debug, info,
  warn and panic), and three aliases.
\<close>

theorem no_Errorln_counterexample:
  "length entries = 16 \<and> set entries = UNIV \<and>
   filter (\<lambda>m. severity m = Lerror \<and> rendering m = ModePrintln) entries = [] \<and>
   filter (\<lambda>m. \<not> is_alias m) entries =
     [Fatal, Fatalf, Fatalln, Panic, Panicf, Error, Errorf, Warn, Warnf,
      Debug, Debugf, Info, Infof] \<and>
   filter is_alias entries = [Print, Printf, Println]"
proof -
  have "m \<in> set entries" for m
    by (cases m) (simp_all add: entries_def)
  then have "set entries = UNIV" by auto
  moreover have "length entries = 16" by (simp add: entries_def)
  moreover have "filter (\<lambda>m. severity m = Lerror \<and> rendering m = ModePrintln) entries = []"
    by (simp add: entries_def Lfatal_def Lerror_def Linfo_def)
  moreover have "filter (\<lambda>m. \<not> is_alias m) entries =
     [Fatal, Fatalf, Fatalln, Panic, Panicf, Error, Errorf, Warn, Warnf,
      Debug, Debugf, Info, Infof]"
    by (simp add: entries_def is_alias_def)
  moreover have "filter is_alias entries = [Print, Printf, Println]"
    by (simp add: entries_def is_alias_def)
  ultimately show ?thesis by blast
qed

text \<open>
  Claim C9, amended. For each of the six severities there is exactly one method named
  after it in the print mode and exactly one in the printf mode (twelve); the only
  severity-named method in the newline mode is \<^verbatim>\<open>Fatalln\<close>; the aliases are \<^verbatim>\<open>Print\<close>,
  \<^verbatim>\<open>Printf\<close> and \<^verbatim>\<open>Println\<close>, all at severity info: sixteen methods. Each method
  calls the internal function of its mode with its severity, followed by
  \<^verbatim>\<open>os.Exit(-1)\<close> for the fatal ones and \<^verbatim>\<open>panic\<close> for the panic ones.
\<close>

theorem entry_points:
  "(\<forall>lvl md. lvl \<le> Lfatal \<and> (md = ModePrint \<or> md = ModePrintf) \<longrightarrow>
      (\<exists>!m. \<not> is_alias m \<and> severity m = lvl \<and> rendering m = md)) \<and>
   (\<forall>m. \<not> is_alias m \<and> rendering m = ModePrintln \<longrightarrow> m = Fatalln) \<and>
   (\<forall>m. is_alias m \<longrightarrow> severity m = Linfo \<and> (m = Print \<or> m = Printf \<or> m = Println)) \<and>
   (\<forall>m. severity m \<le> Lfatal) \<and>
   (\<forall>m lib format v l w.
      call lib m format v l w =
        (if m = Fatal \<or> m = Fatalf \<or> m = Fatalln
         then andThen (core lib (rendering m) (severity m) format v l w) (Exited (- 1))
         else if m = Panic
         then andThen (core lib (rendering m) (severity m) format v l w) (Panicked (Sprint lib v))
         else if m = Panicf
         then andThen (core lib (rendering m) (severity m) format v l w)
                (Panicked (Sprintf lib format v))
         else core lib (rendering m) (severity m) format v l w))"
proof (intro conjI allI impI)
  fix lvl :: Level and md
  assume a: "lvl \<le> Lfatal \<and> (md = ModePrint \<or> md = ModePrintf)"
  then have lv: "lvl = Ldebug \<or> lvl = Linfo \<or> lvl = Lwarn \<or> lvl = Lerror \<or> lvl = Lpanic \<or> lvl = Lfatal"
    by (simp add: level_cases)
  from a have md: "md = ModePrint \<or> md = ModePrintf" by simp
  have u: "m = m'" if "\<not> is_alias m" "\<not> is_alias m'" "severity m = severity m'"
    "rendering m = rendering m'" "rendering m \<noteq> ModePrintln" for m m'
    using that
    by (cases m; cases m')
       (simp_all add: is_alias_def Ldebug_def Linfo_def Lwarn_def Lerror_def Lpanic_def Lfatal_def)
  have ex: "\<exists>m. \<not> is_alias m \<and> severity m = lvl \<and> rendering m = md"
  proof -
    have "\<not> is_alias Debug \<and> \<not> is_alias Debugf \<and> \<not> is_alias Info \<and> \<not> is_alias Infof \<and>
      \<not> is_alias Warn \<and> \<not> is_alias Warnf \<and> \<not> is_alias Error \<and> \<not> is_alias Errorf \<and>
      \<not> is_alias Panic \<and> \<not> is_alias Panicf \<and> \<not> is_alias Fatal \<and> \<not> is_alias Fatalf"
      by (simp add: is_alias_def)
    with lv md show ?thesis
      by (metis severity.simps(1,2,4,5,6,7,8,9,10,11,12,13) rendering.simps(1,2,4,5,6,7,8,9,10,11,12,13))
  qed
  then obtain m where m: "\<not> is_alias m \<and> severity m = lvl \<and> rendering m = md" ..
  show "\<exists>!m. \<not> is_alias m \<and> severity m = lvl \<and> rendering m = md"
  proof (rule ex1I [of _ m])
    show "\<not> is_alias m \<and> severity m = lvl \<and> rendering m = md" by (rule m)
  next
    fix m'
    assume "\<not> is_alias m' \<and> severity m' = lvl \<and> rendering m' = md"
    with m md show "m' = m" by (intro u) auto
  qed
next
  fix m
  assume "\<not> is_alias m \<and> rendering m = ModePrintln"
  then show "m = Fatalln" by (cases m) (simp_all add: is_alias_def)
next
  fix m
  assume "is_alias m"
  then show "severity m = Linfo" by (auto simp: is_alias_def)
next
  fix m
  assume "is_alias m"
  then show "m = Print \<or> m = Printf \<or> m = Println" by (simp add: is_alias_def)
next
  fix m
  show "severity m \<le> Lfatal"
    by (cases m) (simp_all add: Ldebug_def Linfo_def Lwarn_def Lerror_def Lpanic_def Lfatal_def)
next
  fix m and lib :: "'a stdlib" and format v l w
  show "call lib m format v l w =
        (if m = Fatal \<or> m = Fatalf \<or> m = Fatalln
         then andThen (core lib (rendering m) (severity m) format v l w) (Exited (- 1))
         else if m = Panic
         then andThen (core lib (rendering m) (severity m) format v l w) (Panicked (Sprint lib v))
         else if m = Panicf
         then andThen (core lib (rendering m) (severity m) format v l w)
                (Panicked (Sprintf lib format v))
         else core lib (rendering m) (severity m) format v l w)"
    by (rule call_via_core)
qed

theorem entry_points_witness:
  "Lwarn \<le> Lfatal \<and> \<not> is_alias Warnf \<and> severity Warnf = Lwarn \<and> rendering Warnf = ModePrintf \<and>
   (\<exists>m. \<not> is_alias m \<and> severity m = Lwarn \<and> rendering m = ModePrintf) \<and>
   \<not> is_alias Fatalln \<and> rendering Fatalln = ModePrintln \<and>
   is_alias Println \<and> severity Println = Linfo"
proof -
  have le: "Lwarn \<le> Lfatal" by (simp add: Lwarn_def Lfatal_def)
  note t = entry_points [where 'a = nat]
  from t le have 1: "\<exists>m. \<not> is_alias m \<and> severity m = Lwarn \<and> rendering m = ModePrintf"
    by blast
  have a: "is_alias Println" by (simp add: is_alias_def)
  with t have 2: "severity Println = Linfo" by blast
  have 3: "\<not> is_alias Warnf" "\<not> is_alias Fatalln" by (simp_all add: is_alias_def)
  from le 1 2 3 a show ?thesis by simp
qed

text \<open>
  Claim C10. The default logger \<^verbatim>\<open>Std\<close>, as the package initialises it, writes to
  \<^verbatim>\<open>os.Stderr\<close> with an empty prefix and the flags \<^verbatim>\<open>Ldefault\<close>, which are the date,
  the time and the short file name with line, at minimum severity debug and without
  rotation. No severity is below that minimum, so every package-level function called
  while \<^verbatim>\<open>Std\<close> still holds this logger hands exactly one line to its \<^verbatim>\<open>Output\<close>
  and leaves the logger as it was.
\<close>

theorem default_logger:
  "Std = \<lparr>logger = \<lparr>out = os_Stderr, prefix = '''', flag = Ldefault\<rparr>, level = Ldebug,
          shouldRotate = False, timeSuffix = '''', fileName = '''', fd = None\<rparr> \<and>
   Ldefault = log_Ldate OR log_Ltime OR log_Lshortfile \<and>
   (\<forall>m. \<not> severity m < level Std) \<and>
   (\<forall>m lib format v w.
      written w (after (package_call lib m format v Std w)) =
        [LogOutput (logger Std) 4 (render lib (rendering m) (levels ! unat (severity m)) format v)] \<and>
      fst (snd (package_call lib m format v Std w)) = Std)"
proof (intro conjI allI)
  show "Std = \<lparr>logger = \<lparr>out = os_Stderr, prefix = '''', flag = Ldefault\<rparr>, level = Ldebug,
          shouldRotate = False, timeSuffix = '''', fileName = '''', fd = None\<rparr>"
    by (simp add: Std_def New_def log_New_def)
  show "Ldefault = log_Ldate OR log_Ltime OR log_Lshortfile"
    by (simp add: Ldefault_def log_LstdFlags_def log_Ldate_def log_Ltime_def log_Lshortfile_def)
next
  fix m
  show "\<not> severity m < level Std" by (simp add: Std_def New_def Ldebug_def)
next
  fix m and lib :: "'a stdlib" and format v w
  have nlt: "\<not> severity m < level Std" by (simp add: Std_def New_def Ldebug_def)
  have "\<not> shouldRotate Std" by (simp add: Std_def New_def)
  then have k: "checkRotate lib Std w = (Inr (), Std, w)" by (rule checkRotate_off)
  have c: "core lib (rendering m) (severity m) format v Std w =
      (Inr (), Std,
       Output (logger Std) 4 (render lib (rendering m) (levels ! unat (severity m)) format v) w)"
    using nlt severity_valid k by (rule core_passes)
  show "written w (after (package_call lib m format v Std w)) =
        [LogOutput (logger Std) 4 (render lib (rendering m) (levels ! unat (severity m)) format v)]"
    by (simp add: package_call_def call_world c) (simp add: after_def written_def Output_def)
  show "fst (snd (package_call lib m format v Std w)) = Std"
    by (simp add: package_call_def call_logger c)
qed

theorem default_logger_witness:
  "out (logger Std) = FileWriter 2 \<and> prefix (logger Std) = '''' \<and> flag (logger Std) = 19 \<and>
   level Std = 0 \<and>
   written w0 (after (package_call lib0 Debug [] [AString ''x''] Std w0)) =
     [LogOutput (logger Std) 4 ''DEBUG x'']"
proof -
  note t = default_logger [where 'a = nat]
  have r: "render lib0 (rendering Debug) (levels ! unat (severity Debug)) [] [AString ''x'']
      = ''DEBUG x''"
    by (simp add: render_Print levels_def Ldebug_def Sprint_def printArg_def)
  from t have s: "Std = \<lparr>logger = \<lparr>out = os_Stderr, prefix = '''', flag = Ldefault\<rparr>,
      level = Ldebug, shouldRotate = False, timeSuffix = '''', fileName = '''', fd = None\<rparr>"
    and f: "Ldefault = log_Ldate OR log_Ltime OR log_Lshortfile"
    by blast+
  have 1: "out (logger Std) = FileWriter 2" "prefix (logger Std) = ''''" "level Std = 0"
    by (simp_all add: s os_Stderr_def Ldebug_def)
  have 2: "flag (logger Std) = 19"
    by (simp add: s f log_Ldate_def log_Ltime_def log_Lshortfile_def)
  from t have "written w0 (after (package_call lib0 Debug [] [AString ''x''] Std w0)) =
     [LogOutput (logger Std) 4
        (render lib0 (rendering Debug) (levels ! unat (severity Debug)) [] [AString ''x''])]"
    by blast
  with r have 3: "written w0 (after (package_call lib0 Debug [] [AString ''x''] Std w0)) =
     [LogOutput (logger Std) 4 ''DEBUG x'']"
    by simp
  from 1 2 3 show ?thesis by simp
qed

end
